theory Spec2Isabelle
  imports Main
begin

section \<open>Strings\<close>

text \<open>
  A JavaScript string is modelled as a HOL \<open>string\<close>: a list of characters, each one a
  code unit in the range U+0000 .. U+00FF (Latin-1).  On this range
  \<^verbatim>\<open>String.prototype.toLowerCase\<close> acts on each code unit separately: the
  letters A .. Z (65 .. 90) and the accented capitals U+00C0 .. U+00DE without the
  multiplication sign U+00D7 move up by 32, every other code unit stays.
\<close>

definition toLowerChar :: "char \<Rightarrow> char" where
  "toLowerChar c =
     (let n = (of_char c :: nat)
      in if (65 \<le> n \<and> n \<le> 90) \<or> (192 \<le> n \<and> n \<le> 222 \<and> n \<noteq> 215)
         then char_of (n + 32) else c)"

definition toLowerCase :: "string \<Rightarrow> string" where
  "toLowerCase s = map toLowerChar s"

text \<open>
  \<^verbatim>\<open>s.includes(k)\<close>: does \<open>k\<close> occur in \<open>s\<close> as a run of consecutive code units,
  at any position.  The comparison is exact (case-sensitive).  (\<open>includes\<close> is a
  reserved word of Isabelle, hence the prefix.)
\<close>

definition startsWith :: "string \<Rightarrow> string \<Rightarrow> bool" where
  "startsWith s k = (take (length k) s = k)"

fun str_includes :: "string \<Rightarrow> string \<Rightarrow> bool" where
  "str_includes [] k = (k = [])"
| "str_includes (c # cs) k = (startsWith (c # cs) k \<or> str_includes cs k)"

section \<open>The classifier\<close>

text \<open>
  \<^verbatim>\<open>
  function isRealNotification(message) {
      const systemKeywords = ['Initial Sync', 'Connected to', ..., 'test_connection'];
      const lowerMessage = message.toLowerCase();
      return !systemKeywords.some(keyword => lowerMessage.includes(keyword.toLowerCase()));
  }
  \<close>
\<close>

definition systemKeywords :: "string list" where
  "systemKeywords =
     [''Initial Sync'',
      ''Connected to'',
      ''Connection successful'',
      ''request_initial_data'',
      ''ping'',
      ''pong'',
      ''heartbeat'',
      ''system_'',
      ''debug_'',
      ''test_connection'']"

definition isRealNotification :: "string \<Rightarrow> bool" where
  "isRealNotification message =
     (let lowerMessage = toLowerCase message
      in \<not> list_ex (\<lambda>keyword. str_includes lowerMessage (toLowerCase keyword)) systemKeywords)"

text \<open>
  The classifier as the specification words it: a fixed denylist of ten markers, and a text
  is real iff no marker occurs in it ignoring case.  What ignoring case means is fixed here
  by a table of letters, with no reference to the code: two characters are the same
  ignoring case when they are equal or are the capital and the small form of one letter
  (A .. Z with a .. z, and the accented letters of Latin-1, U+00C0 .. U+00DE without
  U+00D7, with U+00E0 .. U+00FE without U+00F7); two strings are equal ignoring case when
  they have the same length and are so character by character; a marker occurs in a text
  ignoring case when some run of consecutive characters of the text equals it ignoring
  case.
\<close>

definition denylist :: "string list" where
  "denylist =
     [''initial sync'', ''connected to'', ''connection successful'', ''request_initial_data'',
      ''ping'', ''pong'', ''heartbeat'', ''system_'', ''debug_'', ''test_connection'']"

definition capital_letters :: string where
  "capital_letters =
     ''ABCDEFGHIJKLMNOPQRSTUVWXYZ''
     @ [CHR 0xC0, CHR 0xC1, CHR 0xC2, CHR 0xC3, CHR 0xC4, CHR 0xC5, CHR 0xC6, CHR 0xC7,
        CHR 0xC8, CHR 0xC9, CHR 0xCA, CHR 0xCB, CHR 0xCC, CHR 0xCD, CHR 0xCE, CHR 0xCF,
        CHR 0xD0, CHR 0xD1, CHR 0xD2, CHR 0xD3, CHR 0xD4, CHR 0xD5, CHR 0xD6,
        CHR 0xD8, CHR 0xD9, CHR 0xDA, CHR 0xDB, CHR 0xDC, CHR 0xDD, CHR 0xDE]"

definition small_letters :: string where
  "small_letters =
     ''abcdefghijklmnopqrstuvwxyz''
     @ [CHR 0xE0, CHR 0xE1, CHR 0xE2, CHR 0xE3, CHR 0xE4, CHR 0xE5, CHR 0xE6, CHR 0xE7,
        CHR 0xE8, CHR 0xE9, CHR 0xEA, CHR 0xEB, CHR 0xEC, CHR 0xED, CHR 0xEE, CHR 0xEF,
        CHR 0xF0, CHR 0xF1, CHR 0xF2, CHR 0xF3, CHR 0xF4, CHR 0xF5, CHR 0xF6,
        CHR 0xF8, CHR 0xF9, CHR 0xFA, CHR 0xFB, CHR 0xFC, CHR 0xFD, CHR 0xFE]"

definition same_ignoring_case :: "char \<Rightarrow> char \<Rightarrow> bool" where
  "same_ignoring_case c d =
     (c = d \<or> (c, d) \<in> set (zip capital_letters small_letters)
            \<or> (d, c) \<in> set (zip capital_letters small_letters))"



section \<open>Connections, the registry and the history\<close>

text \<open>
  A WebSocket object is known by its identity.  What the transport decides (the ready state
  of a socket, and whether a call of \<^verbatim>\<open>send\<close> or \<^verbatim>\<open>ping\<close> on it throws) is the
  environment \<open>env\<close> of a handler run; it may differ from one run to the next.
\<close>

type_synonym ws = nat

datatype ready_state = CONNECTING | OPEN | CLOSING | CLOSED

record env =
  readyState :: "ws \<Rightarrow> ready_state"
  sendThrows :: "ws \<Rightarrow> string \<Rightarrow> bool"
  pingThrows :: "ws \<Rightarrow> bool"

text \<open>
  The module's state: \<^verbatim>\<open>clients\<close> (a \<^verbatim>\<open>Set\<close>, kept as the list of its elements
  in insertion order, which is the order \<^verbatim>\<open>forEach\<close> visits them), \<^verbatim>\<open>messageHistory\<close>,
  and the trace of every call of \<^verbatim>\<open>send\<close> made so far, with its outcome.
\<close>

datatype send_event = Sent ws string | SendFailed ws string

record server =
  clients :: "ws list"
  messageHistory :: "string list"
  wire :: "send_event list"

definition initial :: server where
  "initial = \<lparr>clients = [], messageHistory = [], wire = []\<rparr>"

text \<open>A call either returns or throws; either way it leaves a state behind.\<close>

datatype 'a result = Returned 'a | Threw 'a

fun outcome :: "'a result \<Rightarrow> 'a" where
  "outcome (Returned s) = s"
| "outcome (Threw s) = s"

definition set_add :: "ws list \<Rightarrow> ws \<Rightarrow> ws list" where
  "set_add cs c = (if c \<in> set cs then cs else cs @ [c])"

definition set_delete :: "ws list \<Rightarrow> ws \<Rightarrow> ws list" where
  "set_delete cs c = removeAll c cs"

text \<open>\<^verbatim>\<open>xs.slice(-n)\<close>: the last \<open>n\<close> elements, all of them when there are fewer.\<close>

definition slice_last :: "nat \<Rightarrow> 'a list \<Rightarrow> 'a list" where
  "slice_last n xs = drop (length xs - n) xs"

definition ws_send :: "env \<Rightarrow> server \<Rightarrow> ws \<Rightarrow> string \<Rightarrow> server result" where
  "ws_send e s c m =
     (if sendThrows e c m then Threw (s\<lparr>wire := wire s @ [SendFailed c m]\<rparr>)
      else Returned (s\<lparr>wire := wire s @ [Sent c m]\<rparr>))"

text \<open>
  The block both producers run on a real notification (lines 69-74 and 226-231):
  \<^verbatim>\<open>
  if (!messageHistory.includes(msgStr)) {
      messageHistory.push(msgStr);
      if (messageHistory.length > 50) { messageHistory = messageHistory.slice(-50); }
  }
  \<close>
\<close>

definition recordIfNew :: "string list \<Rightarrow> string \<Rightarrow> string list" where
  "recordIfNew h m =
     (if m \<in> set h then h
      else (let h' = h @ [m] in if length h' > 50 then slice_last 50 h' else h'))"

section \<open>Broadcasts\<close>

text \<open>
  \<^verbatim>\<open>try { client.send(message); } catch (error) { clients.delete(client); }\<close>
\<close>

definition try_send :: "env \<Rightarrow> string \<Rightarrow> server \<Rightarrow> ws \<Rightarrow> server" where
  "try_send e m s c =
     (case ws_send e s c m of
        Returned s' \<Rightarrow> s'
      | Threw s' \<Rightarrow> s'\<lparr>clients := set_delete (clients s') c\<rparr>)"

text \<open>
  \<^verbatim>\<open>clients.forEach\<close> is a left fold over the elements of the set.  The callback deletes
  no element but the one it is visiting, so every element present at the call is visited
  once.
\<close>

definition broadcastToAll :: "env \<Rightarrow> server \<Rightarrow> string \<Rightarrow> server" where
  "broadcastToAll e s m =
     foldl (\<lambda>s client. if readyState e client = OPEN then try_send e m s client else s)
       s (clients s)"

definition broadcastToOthers :: "env \<Rightarrow> server \<Rightarrow> ws \<Rightarrow> string \<Rightarrow> server" where
  "broadcastToOthers e s sender m =
     foldl (\<lambda>s client. if client \<noteq> sender \<and> readyState e client = OPEN
                        then try_send e m s client else s)
       s (clients s)"

section \<open>The handlers\<close>

text \<open>
  \<^verbatim>\<open>wss.on('connection', ...)\<close>: the sends of the backfill are not inside a
  \<^verbatim>\<open>try\<close>, so a throwing send ends the handler there.
\<close>

fun send_each :: "env \<Rightarrow> ws \<Rightarrow> server \<Rightarrow> string list \<Rightarrow> server result" where
  "send_each e c s [] = Returned s"
| "send_each e c s (m # ms) =
     (case ws_send e s c m of
        Returned s' \<Rightarrow> send_each e c s' ms
      | Threw s' \<Rightarrow> Threw s')"

definition connection :: "env \<Rightarrow> server \<Rightarrow> ws \<Rightarrow> server result" where
  "connection e s c =
     (let s1 = s\<lparr>clients := set_add (clients s) c\<rparr>;
          realNotifications = slice_last 5 (filter isRealNotification (messageHistory s1))
      in send_each e c s1 realNotifications)"

text \<open>
  \<^verbatim>\<open>ws.on('message', function incoming(message) ...)\<close>, on the string
  \<^verbatim>\<open>message.toString()\<close>.  Nothing inside its \<^verbatim>\<open>try\<close> throws.
\<close>

definition incoming :: "env \<Rightarrow> server \<Rightarrow> ws \<Rightarrow> string \<Rightarrow> server" where
  "incoming e s c msgStr =
     (if str_includes msgStr ''request_initial_data'' then s
      else if isRealNotification msgStr then
        broadcastToOthers e
          (s\<lparr>messageHistory := recordIfNew (messageHistory s) msgStr\<rparr>) c msgStr
      else s)"

text \<open>\<^verbatim>\<open>ws.on('close', ...)\<close> and \<^verbatim>\<open>ws.on('error', ...)\<close> do the same.\<close>

definition on_close :: "server \<Rightarrow> ws \<Rightarrow> server" where
  "on_close s c = s\<lparr>clients := set_delete (clients s) c\<rparr>"

text \<open>
  \<^verbatim>\<open>app.post('/send-notification', ...)\<close>.  \<^verbatim>\<open>req.body\<close> is what the JSON
  middleware left there: any JSON value, or nothing at all (\<open>None\<close>, JavaScript's
  \<^verbatim>\<open>undefined\<close>).  A JSON number reaches the handler as a double, and the handler can
  see two things of it: whether it is falsy (it is zero; JSON has no NaN) and the text
  that printing it gives.  \<open>JNumber\<close> keeps these two.  The members of an object are
  kept in the order of the text; of two members with one key the later one counts.
\<close>

datatype json =
  JNull
| JBool bool
| JNumber bool string
| JString string
| JArray "json list"
| JObject "(string \<times> json) list"

datatype js_error = TypeError

text \<open>
  Reading a property of the body: only an object has one of the four names the handler
  asks for; an array, a string, a number and a boolean give \<^verbatim>\<open>undefined\<close>.
\<close>

definition get_prop :: "json \<Rightarrow> string \<Rightarrow> json option" where
  "get_prop j k = (case j of JObject kvs \<Rightarrow> map_of (rev kvs) k | _ \<Rightarrow> None)"

text \<open>\<^verbatim>\<open>!v\<close>: the falsy values are undefined, null, false, zero and the empty string.\<close>

fun falsy :: "json option \<Rightarrow> bool" where
  "falsy None = True"
| "falsy (Some JNull) = True"
| "falsy (Some (JBool b)) = (\<not> b)"
| "falsy (Some (JNumber zero printed)) = zero"
| "falsy (Some (JString x)) = (x = [])"
| "falsy (Some (JArray xs)) = False"
| "falsy (Some (JObject kvs)) = False"

text \<open>
  What a template literal does to a value (\<^verbatim>\<open>ToString\<close>); \<open>None\<close> when it throws a
  TypeError.  An array prints its elements with commas between them, a null element as
  nothing.  An object prints through the \<^verbatim>\<open>toString\<close> it inherits, unless it has a
  member of that name: no JSON value can be called, and then the conversion throws.
\<close>

fun join_comma :: "string list \<Rightarrow> string" where
  "join_comma [] = []"
| "join_comma [x] = x"
| "join_comma (x # y # ys) = x @ '','' @ join_comma (y # ys)"

fun js_toString :: "json \<Rightarrow> string option" where
  "js_toString JNull = Some ''null''"
| "js_toString (JBool b) = Some (if b then ''true'' else ''false'')"
| "js_toString (JNumber zero printed) = Some printed"
| "js_toString (JString x) = Some x"
| "js_toString (JArray xs) =
     map_option join_comma
       (those (map (\<lambda>x. if x = JNull then Some [] else js_toString x) xs))"
| "js_toString (JObject kvs) =
     (if ''toString'' \<in> fst ` set kvs then None else Some ''[object Object]'')"

definition to_text :: "json option \<Rightarrow> string option" where
  "to_text v = (case v of None \<Rightarrow> Some ''undefined'' | Some j \<Rightarrow> js_toString j)"

text \<open>
  The answer: the status and the JSON object sent; its text is under the key
  \<^verbatim>\<open>message\<close> or \<^verbatim>\<open>error\<close>, and in the \<^verbatim>\<open>catch\<close> branch it is the message of
  the error caught.
\<close>

datatype response_text = Message string | Error string | ErrorOf js_error

record response =
  res_status :: nat
  res_success :: bool
  res_text :: response_text
  res_clients :: "nat option"
  res_notification :: "string option"

text \<open>
  The body of the handler's \<^verbatim>\<open>try\<close>: \<open>Inl\<close> when it throws.  It can throw in two
  places, the destructuring of a body that is undefined or null and the template literal;
  both come before the first change of the state, so the \<^verbatim>\<open>catch\<close> branch answers
  from the state the handler started in.
\<close>

definition send_notification_try ::
  "env \<Rightarrow> server \<Rightarrow> json option \<Rightarrow> js_error + response \<times> server" where
  "send_notification_try e s body =
     (case body of
        None \<Rightarrow> Inl TypeError
      | Some j \<Rightarrow>
          if j = JNull then Inl TypeError
          else
            (let type = get_prop j ''type'';
                 title = get_prop j ''title'';
                 message = get_prop j ''message'';
                 extraData = (case get_prop j ''extraData'' of
                                None \<Rightarrow> Some (JString []) | Some v \<Rightarrow> Some v)
             in if falsy type \<or> falsy title \<or> falsy message then
                  Inr (\<lparr>res_status = 400, res_success = False,
                        res_text = Error ''Missing required fields: type, title, message'',
                        res_clients = None, res_notification = None\<rparr>, s)
                else
                  (case (to_text type, to_text title, to_text message, to_text extraData) of
                     (Some t, Some ti, Some me, Some ex) \<Rightarrow>
                       (let notification = t @ ''|'' @ ti @ ''|'' @ me @ ''|'' @ ex
                        in if isRealNotification notification then
                             (let s1 = s\<lparr>messageHistory :=
                                          recordIfNew (messageHistory s) notification\<rparr>;
                                  s2 = broadcastToAll e s1 notification
                              in Inr (\<lparr>res_status = 200, res_success = True,
                                        res_text = Message ''Real notification sent successfully'',
                                        res_clients = Some (length (clients s2)),
                                        res_notification = Some notification\<rparr>, s2))
                           else
                             Inr (\<lparr>res_status = 200, res_success = False,
                                   res_text = Message
                                     ''System message filtered out - not a real notification'',
                                   res_clients = None,
                                   res_notification = Some notification\<rparr>, s))
                   | _ \<Rightarrow> Inl TypeError)))"

definition send_notification :: "env \<Rightarrow> server \<Rightarrow> json option \<Rightarrow> response \<times> server" where
  "send_notification e s body =
     (case send_notification_try e s body of
        Inr answer \<Rightarrow> answer
      | Inl error \<Rightarrow>
          (\<lparr>res_status = 500, res_success = False, res_text = ErrorOf error,
            res_clients = None, res_notification = None\<rparr>, s))"

text \<open>The two timers: the sweep of closed sockets and the keep-alive ping.\<close>

definition cleanup :: "env \<Rightarrow> server \<Rightarrow> server" where
  "cleanup e s =
     (let disconnectedClients = filter (\<lambda>client. readyState e client \<noteq> OPEN) (clients s)
      in s\<lparr>clients := foldl set_delete (clients s) disconnectedClients\<rparr>)"

definition keepalive :: "env \<Rightarrow> server \<Rightarrow> server" where
  "keepalive e s =
     foldl (\<lambda>s client. if readyState e client = OPEN \<and> pingThrows e client
                        then s\<lparr>clients := set_delete (clients s) client\<rparr> else s)
       s (clients s)"

text \<open>The states the server can be in: any number of handler runs from the start.\<close>

inductive reachable :: "server \<Rightarrow> bool" where
  start: "reachable initial"
| on_connection: "reachable s \<Longrightarrow> reachable (outcome (connection e s c))"
| on_message: "reachable s \<Longrightarrow> reachable (incoming e s c msgStr)"
| on_closed: "reachable s \<Longrightarrow> reachable (on_close s c)"
| on_post: "reachable s \<Longrightarrow> reachable (snd (send_notification e s b))"
| on_sweep: "reachable s \<Longrightarrow> reachable (cleanup e s)"
| on_ping: "reachable s \<Longrightarrow> reachable (keepalive e s)"

text \<open>
  Reading the trace: every call of \<^verbatim>\<open>send\<close> is an attempt on a connection with a
  text; the calls that returned are the deliveries.
\<close>

fun attempt :: "send_event \<Rightarrow> ws \<times> string" where
  "attempt (Sent c m) = (c, m)"
| "attempt (SendFailed c m) = (c, m)"

definition attempts :: "send_event list \<Rightarrow> (ws \<times> string) list" where
  "attempts evs = map attempt evs"

fun deliveries :: "send_event list \<Rightarrow> (ws \<times> string) list" where
  "deliveries [] = []"
| "deliveries (Sent c m # evs) = (c, m) # deliveries evs"
| "deliveries (SendFailed c m # evs) = deliveries evs"

text \<open>An environment in which every socket is open and no call throws.\<close>

definition quiet :: env where
  "quiet = \<lparr>readyState = (\<lambda>c. OPEN), sendThrows = (\<lambda>c m. False), pingThrows = (\<lambda>c. False)\<rparr>"

text \<open>An environment in which socket 3 is closed and every send on socket 2 throws.\<close>

definition rough :: env where
  "rough = \<lparr>readyState = (\<lambda>c. if c = 3 then CLOSED else OPEN),
             sendThrows = (\<lambda>c m. c = 2), pingThrows = (\<lambda>c. False)\<rparr>"

text \<open>A submission with the three required fields, all strings, and no extra data.\<close>

definition submission :: "string \<Rightarrow> string \<Rightarrow> string \<Rightarrow> json option" where
  "submission t ti me =
     Some (JObject [(''type'', JString t), (''title'', JString ti), (''message'', JString me)])"

text \<open>Fifty-one texts, all different, for runs that fill the history.\<close>

definition fifty_one :: "string list" where
  "fifty_one = map (\<lambda>c. [c]) ''abcdefghijklmnopqrstuvwxyzABCDEFGHIJKLMNOPQRSTUVWXY''"

section \<open>The classifier and the denylist\<close>

lemma toLowerCase_keywords: "map toLowerCase systemKeywords = denylist"
  by (simp add: toLowerCase_def toLowerChar_def systemKeywords_def denylist_def
      char_of_def bit_Suc_0_iff)

lemma toLowerCase_denylist: "map toLowerCase denylist = denylist"
  by (simp add: toLowerCase_def toLowerChar_def denylist_def char_of_def bit_Suc_0_iff)

lemma toLowerCase_marker: "marker \<in> set denylist \<Longrightarrow> toLowerCase marker = marker"
  using toLowerCase_denylist map_eq_conv [of toLowerCase denylist id] by simp

lemma startsWith_iff: "startsWith s k \<longleftrightarrow> (\<exists>post. s = k @ post)"
  unfolding startsWith_def by (metis append_eq_conv_conj)

lemma str_includes_iff: "str_includes s k \<longleftrightarrow> (\<exists>pre post. s = pre @ k @ post)"
proof (induction s)
  case Nil
  then show ?case by simp
next
  case (Cons c cs)
  have "(\<exists>pre post. c # cs = pre @ k @ post) \<longleftrightarrow>
      (\<exists>post. c # cs = k @ post) \<or> (\<exists>pre post. cs = pre @ k @ post)"
    (is "?L \<longleftrightarrow> ?A \<or> ?B")
  proof
    assume ?L
    then obtain pre post where e: "c # cs = pre @ k @ post" by blast
    show "?A \<or> ?B"
    proof (cases pre)
      case Nil
      with e show ?thesis by auto
    next
      case (Cons p ps)
      with e have "cs = ps @ k @ post" by simp
      then show ?thesis by blast
    qed
  next
    assume "?A \<or> ?B"
    then show ?L
    proof
      assume ?A
      then obtain post where "c # cs = [] @ k @ post" by auto
      then show ?L by blast
    next
      assume ?B
      then obtain pre post where "cs = pre @ k @ post" by blast
      then have "c # cs = (c # pre) @ k @ post" by simp
      then show ?L by blast
    qed
  qed
  with Cons.IH show ?case by (simp add: startsWith_iff)
qed



lemma isRealNotification_iff:
  "isRealNotification text \<longleftrightarrow>
     \<not> (\<exists>marker \<in> set denylist. str_includes (toLowerCase text) marker)"
proof -
  have "isRealNotification text \<longleftrightarrow>
      \<not> (\<exists>marker \<in> set (map toLowerCase systemKeywords). str_includes (toLowerCase text) marker)"
    by (simp add: isRealNotification_def list_ex_iff)
  then show ?thesis by (simp only: toLowerCase_keywords)
qed

text \<open>
  The table of letters against the code: for a character \<open>d\<close> that is not a capital
  letter, the characters that \<^verbatim>\<open>toLowerCase\<close> sends to \<open>d\<close> are exactly those that
  are the same as \<open>d\<close> ignoring case.  No marker of the denylist holds a capital letter.
\<close>

lemma char_of_plus_32:
  "n \<le> 222 \<Longrightarrow> char_of (n + 32) = d \<longleftrightarrow> n + 32 = (of_char d :: nat)" for n :: nat
  by (simp add: char_of_eq_iff take_bit_eq_mod)


lemma capital_letters_codes:
  "capital_letters = map char_of ([65..<91] @ [192..<215] @ [216..<223] :: nat list)"
  by code_simp

lemma small_letters_shift:
  "small_letters = map (\<lambda>c. char_of ((of_char c :: nat) + 32)) capital_letters"
  by code_simp

lemma in_map_char_of:
  assumes "\<forall>n \<in> set ns. n < (256 :: nat)"
  shows "c \<in> set (map char_of ns) \<longleftrightarrow> (of_char c :: nat) \<in> set ns"
proof
  assume "c \<in> set (map char_of ns)"
  then obtain n where n: "n \<in> set ns" and c: "c = char_of n" by auto
  with assms have "(of_char c :: nat) = n" by simp
  with n show "(of_char c :: nat) \<in> set ns" by simp
next
  assume "(of_char c :: nat) \<in> set ns"
  then have "char_of (of_char c :: nat) \<in> char_of ` set ns" by (rule imageI)
  then show "c \<in> set (map char_of ns)" by simp
qed

lemma capital_codes:
  "n \<in> set ([65..<91] @ [192..<215] @ [216..<223] :: nat list) \<longleftrightarrow>
     (65 \<le> n \<and> n \<le> 90) \<or> (192 \<le> n \<and> n \<le> 222 \<and> n \<noteq> 215)"
proof -
  have "n \<in> set ([65..<91] @ [192..<215] @ [216..<223] :: nat list) \<longleftrightarrow>
      (65 \<le> n \<and> n < 91) \<or> (192 \<le> n \<and> n < 215) \<or> (216 \<le> n \<and> n < 223)"
    by (simp only: set_append set_upt Un_iff atLeastLessThan_iff disj_assoc)
  also have "\<dots> \<longleftrightarrow> (65 \<le> n \<and> n \<le> 90) \<or> (192 \<le> n \<and> n \<le> 222 \<and> n \<noteq> 215)"
    by arith
  finally show ?thesis .
qed

lemma in_capital_letters:
  "c \<in> set capital_letters \<longleftrightarrow>
     (65 \<le> (of_char c :: nat) \<and> (of_char c :: nat) \<le> 90)
     \<or> (192 \<le> (of_char c :: nat) \<and> (of_char c :: nat) \<le> 222 \<and> (of_char c :: nat) \<noteq> 215)"
proof -
  have "\<forall>n \<in> set ([65..<91] @ [192..<215] @ [216..<223] :: nat list). n < 256"
  proof
    fix n :: nat
    assume "n \<in> set ([65..<91] @ [192..<215] @ [216..<223])"
    then have "(65 \<le> n \<and> n \<le> 90) \<or> (192 \<le> n \<and> n \<le> 222 \<and> n \<noteq> 215)"
      by (simp only: capital_codes)
    then show "n < 256" by arith
  qed
  from in_map_char_of [OF this, of c] show ?thesis
    unfolding capital_letters_codes capital_codes .
qed

lemma in_zip_map: "(c, d) \<in> set (zip xs (map f xs)) \<longleftrightarrow> c \<in> set xs \<and> d = f c"
  by (induction xs) auto

lemma in_letter_pairs:
  "(c, d) \<in> set (zip capital_letters small_letters) \<longleftrightarrow>
     ((65 \<le> (of_char c :: nat) \<and> (of_char c :: nat) \<le> 90)
      \<or> (192 \<le> (of_char c :: nat) \<and> (of_char c :: nat) \<le> 222 \<and> (of_char c :: nat) \<noteq> 215))
     \<and> (of_char c :: nat) + 32 = of_char d"
proof -
  have "(c, d) \<in> set (zip capital_letters small_letters) \<longleftrightarrow>
      c \<in> set capital_letters \<and> d = char_of ((of_char c :: nat) + 32)"
    by (subst small_letters_shift) (rule in_zip_map)
  then show ?thesis
    unfolding in_capital_letters using char_of_plus_32 [of "of_char c" d] by auto
qed





lemma same_ignoring_case_examples:
  "same_ignoring_case CHR ''P'' CHR ''p''" "same_ignoring_case CHR ''p'' CHR ''P''"
  "\<not> same_ignoring_case CHR ''p'' CHR ''q''" "\<not> same_ignoring_case CHR ''P'' CHR ''0''"
  "\<not> same_ignoring_case CHR ''@'' CHR 0x60" "\<not> same_ignoring_case CHR ''['' CHR ''{''"
  by (simp_all add: same_ignoring_case_def in_letter_pairs)


section \<open>The history buffer\<close>

lemma slice_last_all: "length xs \<le> n \<Longrightarrow> slice_last n xs = xs"
  by (simp add: slice_last_def)

lemma length_slice_last: "length (slice_last n xs) = min n (length xs)"
  by (simp add: slice_last_def)

lemma set_slice_last: "set (slice_last n xs) \<subseteq> set xs"
  by (simp add: slice_last_def set_drop_subset)

lemma distinct_slice_last: "distinct xs \<Longrightarrow> distinct (slice_last n xs)"
  by (simp add: slice_last_def)

lemma slice_last_append_slice:
  "slice_last n (slice_last n ys @ xs) = slice_last n (ys @ xs)"
proof -
  have "length ys + length xs - (length ys - n + n) + (length ys - n)
      = length ys + length xs - n"
    by arith
  then show ?thesis by (simp add: slice_last_def)
qed

lemma recordIfNew_present: "m \<in> set h \<Longrightarrow> recordIfNew h m = h"
  by (simp add: recordIfNew_def)

lemma recordIfNew_absent: "m \<notin> set h \<Longrightarrow> recordIfNew h m = slice_last 50 (h @ [m])"
  by (simp add: recordIfNew_def Let_def slice_last_def)

lemma set_recordIfNew: "set (recordIfNew h m) \<subseteq> insert m (set h)"
  using set_slice_last [of 50 "h @ [m]"]
  by (cases "m \<in> set h") (auto simp: recordIfNew_present recordIfNew_absent)

lemma recordIfNew_member: "m \<in> set (recordIfNew h m)"
proof (cases "m \<in> set h")
  case True
  then show ?thesis by (simp add: recordIfNew_present)
next
  case False
  have "last (slice_last 50 (h @ [m])) = m"
    by (simp add: slice_last_def)
  moreover have "slice_last 50 (h @ [m]) \<noteq> []"
    by (simp add: slice_last_def)
  ultimately have "m \<in> set (slice_last 50 (h @ [m]))"
    using last_in_set by metis
  with False show ?thesis by (simp add: recordIfNew_absent)
qed

lemma length_recordIfNew: "length h \<le> 50 \<Longrightarrow> length (recordIfNew h m) \<le> 50"
  by (cases "m \<in> set h") (simp_all add: recordIfNew_present recordIfNew_absent length_slice_last)

lemma distinct_recordIfNew: "distinct h \<Longrightarrow> distinct (recordIfNew h m)"
  by (cases "m \<in> set h")
     (simp_all add: recordIfNew_present recordIfNew_absent distinct_slice_last)

lemma recordIfNew_twice: "recordIfNew (recordIfNew h m) m = recordIfNew h m"
  by (simp add: recordIfNew_present recordIfNew_member)

lemma foldl_recordIfNew:
  "distinct (h @ ms) \<Longrightarrow> length h \<le> 50 \<Longrightarrow> foldl recordIfNew h ms = slice_last 50 (h @ ms)"
proof (induction ms arbitrary: h)
  case Nil
  then show ?case by (simp add: slice_last_all)
next
  case (Cons m ms)
  let ?h = "slice_last 50 (h @ [m])"
  from Cons.prems have new: "m \<notin> set h" by simp
  have "set ?h \<subseteq> set (h @ [m])" by (rule set_slice_last)
  with Cons.prems have d: "distinct (?h @ ms)"
    by (auto simp: distinct_slice_last)
  have l: "length ?h \<le> 50" by (simp add: length_slice_last)
  have "foldl recordIfNew h (m # ms) = foldl recordIfNew ?h ms"
    using new by (simp add: recordIfNew_absent)
  also have "\<dots> = slice_last 50 (?h @ ms)"
    using d l by (rule Cons.IH)
  also have "\<dots> = slice_last 50 (h @ m # ms)"
    by (simp add: slice_last_append_slice)
  finally show ?case .
qed

section \<open>One pass over the registry\<close>

lemma try_send_history [simp]: "messageHistory (try_send e m s c) = messageHistory s"
  by (simp add: try_send_def ws_send_def)

lemma try_send_wire:
  "wire (try_send e m s c) = wire s @ [if sendThrows e c m then SendFailed c m else Sent c m]"
  by (simp add: try_send_def ws_send_def)

lemma try_send_clients:
  "clients (try_send e m s c) =
     (if sendThrows e c m then set_delete (clients s) c else clients s)"
  by (simp add: try_send_def ws_send_def)

lemma pass_history:
  "messageHistory (foldl (\<lambda>s c. if P c then try_send e m s c else s) s xs) = messageHistory s"
  by (induction xs arbitrary: s) simp_all

lemma pass_wire:
  "wire (foldl (\<lambda>s c. if P c then try_send e m s c else s) s xs) =
     wire s @ map (\<lambda>c. if sendThrows e c m then SendFailed c m else Sent c m) (filter P xs)"
  by (induction xs arbitrary: s) (simp_all add: try_send_wire)

lemma pass_clients:
  "clients (foldl (\<lambda>s c. if P c then try_send e m s c else s) s xs) =
     filter (\<lambda>c. \<not> (c \<in> set xs \<and> P c \<and> sendThrows e c m)) (clients s)"
proof (induction xs arbitrary: s)
  case Nil
  then show ?case by simp
next
  case (Cons x xs)
  show ?case
    by (auto simp: Cons.IH try_send_clients set_delete_def removeAll_filter_not_eq
        intro!: filter_cong)
qed

lemma pass_clients_all:
  "clients (foldl (\<lambda>s c. if P c then try_send e m s c else s) s (clients s)) =
     filter (\<lambda>c. \<not> (P c \<and> sendThrows e c m)) (clients s)"
  unfolding pass_clients by (rule filter_cong) auto

lemma broadcastToAll_history [simp]:
  "messageHistory (broadcastToAll e s m) = messageHistory s"
  by (simp add: broadcastToAll_def pass_history)

lemma broadcastToOthers_history [simp]:
  "messageHistory (broadcastToOthers e s a m) = messageHistory s"
  by (simp add: broadcastToOthers_def pass_history)

lemma broadcastToAll_wire:
  "wire (broadcastToAll e s m) =
     wire s @ map (\<lambda>c. if sendThrows e c m then SendFailed c m else Sent c m)
                (filter (\<lambda>c. readyState e c = OPEN) (clients s))"
  by (simp add: broadcastToAll_def pass_wire)

lemma broadcastToOthers_wire:
  "wire (broadcastToOthers e s a m) =
     wire s @ map (\<lambda>c. if sendThrows e c m then SendFailed c m else Sent c m)
                (filter (\<lambda>c. c \<noteq> a \<and> readyState e c = OPEN) (clients s))"
  by (simp add: broadcastToOthers_def pass_wire)

lemma broadcastToAll_clients:
  "clients (broadcastToAll e s m) =
     filter (\<lambda>c. \<not> (readyState e c = OPEN \<and> sendThrows e c m)) (clients s)"
  by (simp add: broadcastToAll_def pass_clients_all)

lemma broadcastToOthers_clients:
  "clients (broadcastToOthers e s a m) =
     filter (\<lambda>c. \<not> ((c \<noteq> a \<and> readyState e c = OPEN) \<and> sendThrows e c m)) (clients s)"
  by (simp add: broadcastToOthers_def pass_clients_all)

lemma attempts_append [simp]: "attempts (xs @ ys) = attempts xs @ attempts ys"
  by (simp add: attempts_def)

lemma deliveries_append [simp]: "deliveries (xs @ ys) = deliveries xs @ deliveries ys"
  by (induction xs rule: deliveries.induct) simp_all

lemma attempts_pass:
  "attempts (map (\<lambda>c. if sendThrows e c m then SendFailed c m else Sent c m) cs) =
     map (\<lambda>c. (c, m)) cs"
  by (induction cs) (simp_all add: attempts_def)

lemma deliveries_pass:
  "deliveries (map (\<lambda>c. if sendThrows e c m then SendFailed c m else Sent c m) cs) =
     map (\<lambda>c. (c, m)) (filter (\<lambda>c. \<not> sendThrows e c m) cs)"
  by (induction cs) simp_all

section \<open>The backfill\<close>

lemma send_each_history [simp]:
  "messageHistory (outcome (send_each e c s ms)) = messageHistory s"
  by (induction ms arbitrary: s) (simp_all add: ws_send_def)

lemma send_each_clients [simp]:
  "clients (outcome (send_each e c s ms)) = clients s"
  by (induction ms arbitrary: s) (simp_all add: ws_send_def)



lemma send_each_wire:
  "\<exists>evs. wire (outcome (send_each e c s ms)) = wire s @ evs
       \<and> (\<forall>ev \<in> set evs. fst (attempt ev) = c \<and> snd (attempt ev) \<in> set ms)"
proof (induction ms arbitrary: s)
  case Nil
  then show ?case by simp
next
  case (Cons m ms)
  show ?case
  proof (cases "sendThrows e c m")
    case True
    then have "wire (outcome (send_each e c s (m # ms))) = wire s @ [SendFailed c m]"
      by (simp add: ws_send_def)
    then show ?thesis by auto
  next
    case False
    let ?s = "s\<lparr>wire := wire s @ [Sent c m]\<rparr>"
    obtain evs where w: "wire (outcome (send_each e c ?s ms)) = wire ?s @ evs"
      and t: "\<forall>ev \<in> set evs. fst (attempt ev) = c \<and> snd (attempt ev) \<in> set ms"
      using Cons.IH [of ?s] by blast
    from False w have "wire (outcome (send_each e c s (m # ms))) = wire s @ (Sent c m # evs)"
      by (simp add: ws_send_def)
    moreover from t have
      "\<forall>ev \<in> set (Sent c m # evs). fst (attempt ev) = c \<and> snd (attempt ev) \<in> set (m # ms)"
      by simp
    ultimately show ?thesis by blast
  qed
qed

section \<open>What each handler does to the history\<close>

lemma request_initial_data_not_real:
  assumes "str_includes msgStr ''request_initial_data''"
  shows "\<not> isRealNotification msgStr"
proof -
  from assms obtain pre post where "msgStr = pre @ ''request_initial_data'' @ post"
    unfolding str_includes_iff by blast
  then have "toLowerCase msgStr
      = toLowerCase pre @ toLowerCase ''request_initial_data'' @ toLowerCase post"
    by (simp add: toLowerCase_def)
  moreover have m: "''request_initial_data'' \<in> set denylist"
    by (simp add: denylist_def)
  ultimately have "str_includes (toLowerCase msgStr) ''request_initial_data''"
    unfolding str_includes_iff using toLowerCase_marker [OF m] by metis
  with m show ?thesis unfolding isRealNotification_iff by blast
qed

lemma incoming_history:
  "messageHistory (incoming e s c msgStr) =
     (if isRealNotification msgStr then recordIfNew (messageHistory s) msgStr
      else messageHistory s)"
  using request_initial_data_not_real [of msgStr] by (auto simp: incoming_def)

lemma send_notification_shape:
  "(\<forall>e s. snd (send_notification e s b) = s \<and> \<not> res_success (fst (send_notification e s b)))
   \<or> (\<exists>n. isRealNotification n
         \<and> (\<forall>e s. res_success (fst (send_notification e s b))
               \<and> res_notification (fst (send_notification e s b)) = Some n
               \<and> snd (send_notification e s b)
                   = broadcastToAll e (s\<lparr>messageHistory := recordIfNew (messageHistory s) n\<rparr>) n))"
proof (cases b)
  case None
  then show ?thesis by (simp add: send_notification_def send_notification_try_def)
next
  case (Some j)
  let ?type = "get_prop j ''type''" and ?title = "get_prop j ''title''"
    and ?message = "get_prop j ''message''"
    and ?extra = "case get_prop j ''extraData'' of None \<Rightarrow> Some (JString []) | Some v \<Rightarrow> Some v"
  consider (null) "j = JNull"
    | (missing) "j \<noteq> JNull" "falsy ?type \<or> falsy ?title \<or> falsy ?message"
    | (throws) "j \<noteq> JNull" "\<not> (falsy ?type \<or> falsy ?title \<or> falsy ?message)"
        "to_text ?type = None \<or> to_text ?title = None \<or> to_text ?message = None
          \<or> to_text ?extra = None"
    | (printed) t ti me ex where "j \<noteq> JNull" "\<not> (falsy ?type \<or> falsy ?title \<or> falsy ?message)"
        "to_text ?type = Some t" "to_text ?title = Some ti" "to_text ?message = Some me"
        "to_text ?extra = Some ex"
    by (cases "to_text ?type"; cases "to_text ?title"; cases "to_text ?message";
        cases "to_text ?extra") auto
  then show ?thesis
  proof cases
    case null
    with Some show ?thesis by (simp add: send_notification_def send_notification_try_def)
  next
    case missing
    with Some show ?thesis
      by (simp add: send_notification_def send_notification_try_def Let_def)
  next
    case throws
    with Some show ?thesis
      by (auto simp: send_notification_def send_notification_try_def Let_def
          split: option.splits)
  next
    case printed
    let ?n = "t @ ''|'' @ ti @ ''|'' @ me @ ''|'' @ ex"
    show ?thesis
    proof (cases "isRealNotification ?n")
      case True
      with Some printed have "\<forall>e s. res_success (fst (send_notification e s b))
               \<and> res_notification (fst (send_notification e s b)) = Some ?n
               \<and> snd (send_notification e s b)
                   = broadcastToAll e (s\<lparr>messageHistory := recordIfNew (messageHistory s) ?n\<rparr>) ?n"
        by (simp add: send_notification_def send_notification_try_def Let_def)
      with True show ?thesis by blast
    next
      case False
      with Some printed show ?thesis
        by (simp add: send_notification_def send_notification_try_def Let_def)
    qed
  qed
qed

lemma send_notification_history:
  "messageHistory (snd (send_notification e s b)) = messageHistory s
   \<or> (\<exists>n. isRealNotification n
         \<and> messageHistory (snd (send_notification e s b)) = recordIfNew (messageHistory s) n)"
proof -
  from send_notification_shape [of b] show ?thesis
  proof
    assume "\<forall>e s. snd (send_notification e s b) = s
        \<and> \<not> res_success (fst (send_notification e s b))"
    then show ?thesis by simp
  next
    assume "\<exists>n. isRealNotification n
         \<and> (\<forall>e s. res_success (fst (send_notification e s b))
               \<and> res_notification (fst (send_notification e s b)) = Some n
               \<and> snd (send_notification e s b)
                   = broadcastToAll e (s\<lparr>messageHistory := recordIfNew (messageHistory s) n\<rparr>) n)"
    then obtain n where "isRealNotification n"
      and "snd (send_notification e s b)
             = broadcastToAll e (s\<lparr>messageHistory := recordIfNew (messageHistory s) n\<rparr>) n"
      by blast
    then have "isRealNotification n
        \<and> messageHistory (snd (send_notification e s b)) = recordIfNew (messageHistory s) n"
      by simp
    then show ?thesis by blast
  qed
qed

lemma accepted_state:
  assumes "res_success (fst (send_notification e s b))"
  shows "\<exists>n. isRealNotification n \<and> res_notification (fst (send_notification e s b)) = Some n
           \<and> snd (send_notification e s b)
               = broadcastToAll e (s\<lparr>messageHistory := recordIfNew (messageHistory s) n\<rparr>) n"
  using assms send_notification_shape [of b] by blast

lemma connection_history [simp]:
  "messageHistory (outcome (connection e s c)) = messageHistory s"
  by (simp add: connection_def Let_def)

lemma keepalive_pass:
  "messageHistory (foldl (\<lambda>s client. if P client
        then s\<lparr>clients := set_delete (clients s) client\<rparr> else s) s xs) = messageHistory s
   \<and> wire (foldl (\<lambda>s client. if P client
        then s\<lparr>clients := set_delete (clients s) client\<rparr> else s) s xs) = wire s"
  by (induction xs arbitrary: s) simp_all

lemma keepalive_history [simp]: "messageHistory (keepalive e s) = messageHistory s"
  by (simp add: keepalive_def keepalive_pass)

lemma keepalive_wire [simp]: "wire (keepalive e s) = wire s"
  by (simp add: keepalive_def keepalive_pass)

lemma history_induct:
  assumes "reachable s"
    and "P []"
    and "\<And>h n. P h \<Longrightarrow> isRealNotification n \<Longrightarrow> P (recordIfNew h n)"
  shows "P (messageHistory s)"
  using assms(1)
proof (induction rule: reachable.induct)
  case start
  from assms(2) show ?case by (simp add: initial_def)
next
  case (on_message s e c msgStr)
  then show ?case by (simp add: incoming_history assms(3))
next
  case (on_post s e b)
  with send_notification_history [of e s b] show ?case
    by (auto intro: assms(3))
qed (simp_all add: on_close_def cleanup_def)

section \<open>Only real notifications are stored or sent\<close>

lemma short_text_real:
  assumes "length text < 4"
  shows "isRealNotification text"
proof -
  have "\<forall>marker \<in> set denylist. 4 \<le> length marker"
    by (simp add: denylist_def)
  moreover have "length marker \<le> length text" if "str_includes (toLowerCase text) marker" for marker
    using that unfolding str_includes_iff toLowerCase_def
    by (metis length_append length_map le_add1 le_add2 le_trans)
  ultimately show ?thesis
    unfolding isRealNotification_iff using assms by fastforce
qed

lemma wire_real:
  assumes "reachable s"
  shows "\<forall>ev \<in> set (wire s). isRealNotification (snd (attempt ev))"
  using assms
proof (induction rule: reachable.induct)
  case start
  show ?case by (simp add: initial_def)
next
  case (on_connection s e c)
  let ?ms = "slice_last 5 (filter isRealNotification (messageHistory s))"
  let ?s1 = "s\<lparr>clients := set_add (clients s) c\<rparr>"
  obtain evs where w: "wire (outcome (send_each e c ?s1 ?ms)) = wire ?s1 @ evs"
    and t: "\<forall>ev \<in> set evs. fst (attempt ev) = c \<and> snd (attempt ev) \<in> set ?ms"
    using send_each_wire [of e c ?s1 ?ms] by blast
  have "set ?ms \<subseteq> {m. isRealNotification m}"
    using set_slice_last [of 5 "filter isRealNotification (messageHistory s)"] by auto
  with t have "\<forall>ev \<in> set evs. isRealNotification (snd (attempt ev))" by blast
  with w on_connection.IH show ?case
    by (auto simp: connection_def Let_def)
next
  case (on_message s e c msgStr)
  then show ?case
    by (auto simp: incoming_def broadcastToOthers_wire)
next
  case (on_post s e b)
  from send_notification_shape [of b] show ?case
  proof
    assume "\<forall>e s. snd (send_notification e s b) = s
        \<and> \<not> res_success (fst (send_notification e s b))"
    with on_post.IH show ?thesis by simp
  next
    assume "\<exists>n. isRealNotification n
         \<and> (\<forall>e s. res_success (fst (send_notification e s b))
               \<and> res_notification (fst (send_notification e s b)) = Some n
               \<and> snd (send_notification e s b)
                   = broadcastToAll e (s\<lparr>messageHistory := recordIfNew (messageHistory s) n\<rparr>) n)"
    then obtain n where n: "isRealNotification n"
      and s: "snd (send_notification e s b)
             = broadcastToAll e (s\<lparr>messageHistory := recordIfNew (messageHistory s) n\<rparr>) n"
      by blast
    from on_post.IH n show ?thesis unfolding s by (auto simp: broadcastToAll_wire)
  qed
qed (simp_all add: on_close_def cleanup_def)

lemma backfill_real:
  "\<forall>ev \<in> set (drop (length (wire s)) (wire (outcome (connection e s c)))).
      isRealNotification (snd (attempt ev))"
proof -
  let ?ms = "slice_last 5 (filter isRealNotification (messageHistory s))"
  let ?s1 = "s\<lparr>clients := set_add (clients s) c\<rparr>"
  obtain evs where w: "wire (outcome (send_each e c ?s1 ?ms)) = wire ?s1 @ evs"
    and t: "\<forall>ev \<in> set evs. fst (attempt ev) = c \<and> snd (attempt ev) \<in> set ?ms"
    using send_each_wire [of e c ?s1 ?ms] by blast
  have "set ?ms \<subseteq> {m. isRealNotification m}"
    using set_slice_last [of 5 "filter isRealNotification (messageHistory s)"] by auto
  with t have "\<forall>ev \<in> set evs. isRealNotification (snd (attempt ev))" by blast
  with w show ?thesis by (simp add: connection_def Let_def)
qed

lemma recordIfNew_real:
  "\<forall>x \<in> set h. isRealNotification x \<Longrightarrow> isRealNotification m \<Longrightarrow>
     \<forall>x \<in> set (recordIfNew h m). isRealNotification x"
  using set_recordIfNew [of h m] by auto

lemma history_real:
  assumes "reachable s"
  shows "\<forall>m \<in> set (messageHistory s). isRealNotification m"
proof -
  have "(\<lambda>h. \<forall>m \<in> set h. isRealNotification m) (messageHistory s)"
    using assms
  proof (rule history_induct)
    show "\<forall>m \<in> set []. isRealNotification m" by simp
  next
    fix h n
    assume "\<forall>m \<in> set h. isRealNotification m" and "isRealNotification n"
    then show "\<forall>m \<in> set (recordIfNew h n). isRealNotification m"
      by (rule recordIfNew_real)
  qed
  then show ?thesis .
qed

text \<open>
  Claim C2.  In every state the server can reach, each text of the history is a real
  notification, and so is each text ever handed to \<^verbatim>\<open>send\<close>.  The two
  operations that write the history (an inbound message and a submission over HTTP) keep
  the history real from any state, and what the connection handler sends to a socket that
  joins is real whatever the history holds.
\<close>

theorem history_only_real:
  "(reachable s \<longrightarrow>
      (\<forall>m \<in> set (messageHistory s). isRealNotification m)
      \<and> (\<forall>ev \<in> set (wire s). isRealNotification (snd (attempt ev))))
   \<and> ((\<forall>m \<in> set (messageHistory s). isRealNotification m) \<longrightarrow>
        (\<forall>m \<in> set (messageHistory (incoming e s c msgStr)). isRealNotification m)
        \<and> (\<forall>m \<in> set (messageHistory (snd (send_notification e s b))). isRealNotification m))
   \<and> (\<forall>ev \<in> set (drop (length (wire s)) (wire (outcome (connection e s c)))).
        isRealNotification (snd (attempt ev)))"
proof (intro conjI impI)
  assume r: "reachable s"
  show "\<forall>m \<in> set (messageHistory s). isRealNotification m"
    using r by (rule history_real)
  show "\<forall>ev \<in> set (wire s). isRealNotification (snd (attempt ev))"
    using r by (rule wire_real)
next
  assume h: "\<forall>m \<in> set (messageHistory s). isRealNotification m"
  show "\<forall>m \<in> set (messageHistory (incoming e s c msgStr)). isRealNotification m"
    using h recordIfNew_real [of "messageHistory s" msgStr]
    by (cases "isRealNotification msgStr") (simp_all add: incoming_history)
  show "\<forall>m \<in> set (messageHistory (snd (send_notification e s b))). isRealNotification m"
    using h send_notification_history [of e s b] recordIfNew_real [of "messageHistory s"]
    by metis
next
  show "\<forall>ev \<in> set (drop (length (wire s)) (wire (outcome (connection e s c)))).
        isRealNotification (snd (attempt ev))"
    by (rule backfill_real)
qed


lemma quiet_simps [simp]:
  "readyState quiet c = OPEN" "sendThrows quiet c m = False" "pingThrows quiet c = False"
  by (simp_all add: quiet_def)

lemmas run_defs =
  incoming_def send_notification_def send_notification_try_def submission_def get_prop_def
  to_text_def connection_def broadcastToOthers_def broadcastToAll_def
  try_send_def ws_send_def recordIfNew_def slice_last_def set_add_def set_delete_def
  initial_def startsWith_def Let_def

lemmas classify_defs =
  isRealNotification_def toLowerCase_def toLowerChar_def systemKeywords_def char_of_def
  bit_Suc_0_iff startsWith_def Let_def

theorem history_only_real_witness:
  "reachable (incoming quiet initial 1 ''hi'')
   \<and> messageHistory (incoming quiet initial 1 ''hi'') = [''hi'']
   \<and> list_all isRealNotification (messageHistory (incoming quiet initial 1 ''hi''))
   \<and> list_all isRealNotification
        (messageHistory (incoming quiet (incoming quiet initial 1 ''hi'') 2 ''you''))
   \<and> wire (outcome (connection quiet (incoming quiet initial 1 ''hi'') 2)) = [Sent 2 ''hi'']
   \<and> list_all (\<lambda>ev. isRealNotification (snd (attempt ev)))
        (wire (outcome (connection quiet (incoming quiet initial 1 ''hi'') 2)))"
proof -
  let ?s = "incoming quiet initial 1 ''hi''"
  have r: "reachable ?s" by (rule reachable.on_message [OF reachable.start])
  have real: "isRealNotification ''hi''" by (simp add: short_text_real)
  have s: "?s = \<lparr>clients = [], messageHistory = [''hi''], wire = []\<rparr>"
    by (simp add: run_defs real)
  have c: "wire (outcome (connection quiet ?s 2)) = [Sent 2 ''hi'']"
    unfolding s by (simp add: run_defs real)
  note t = history_only_real [of ?s quiet 2 "''you''" undefined]
  from t r have a: "\<forall>m \<in> set (messageHistory ?s). isRealNotification m" by blast
  with t have b: "\<forall>m \<in> set (messageHistory (incoming quiet ?s 2 ''you'')). isRealNotification m"
    by blast
  from t have d: "\<forall>ev \<in> set (drop (length (wire ?s)) (wire (outcome (connection quiet ?s 2)))).
        isRealNotification (snd (attempt ev))" by blast
  have w: "wire ?s = []" unfolding s by simp
  have h: "messageHistory ?s = [''hi'']" unfolding s by simp
  from d have d': "\<forall>ev \<in> set (wire (outcome (connection quiet ?s 2))).
        isRealNotification (snd (attempt ev))" unfolding w by simp
  from r h a b c d' show ?thesis unfolding list_all_iff by blast
qed

section \<open>The bound and the order of the history\<close>

lemma fifty_one_distinct: "distinct fifty_one"
  by (simp add: fifty_one_def)

lemma fifty_one_length: "length fifty_one = 51"
  by (simp add: fifty_one_def)

lemma fifty_one_real: "\<forall>m \<in> set fifty_one. isRealNotification m"
  by (auto simp: fifty_one_def intro: short_text_real)

lemma incoming_all_history:
  "\<forall>m \<in> set ms. isRealNotification m \<Longrightarrow>
     messageHistory (foldl (\<lambda>s m. incoming e s c m) s ms) = foldl recordIfNew (messageHistory s) ms"
  by (induction ms arbitrary: s) (simp_all add: incoming_history)

lemma history_length:
  assumes "reachable s"
  shows "length (messageHistory s) \<le> 50"
proof -
  have "(\<lambda>h. length h \<le> 50) (messageHistory s)"
    using assms
  proof (rule history_induct)
    show "length ([] :: string list) \<le> 50" by simp
  next
    fix h :: "string list" and n
    assume "length h \<le> 50"
    then show "length (recordIfNew h n) \<le> 50" by (rule length_recordIfNew)
  qed
  then show ?thesis .
qed

lemma history_distinct:
  assumes "reachable s"
  shows "distinct (messageHistory s)"
proof -
  have "(\<lambda>h. distinct h) (messageHistory s)"
    using assms
  proof (rule history_induct)
    show "distinct ([] :: string list)" by simp
  next
    fix h :: "string list" and n
    assume "distinct h"
    then show "distinct (recordIfNew h n)" by (rule distinct_recordIfNew)
  qed
  then show ?thesis .
qed

lemma accepted_history:
  assumes "res_success (fst (send_notification e s b))"
  shows "\<exists>n. isRealNotification n \<and> res_notification (fst (send_notification e s b)) = Some n
           \<and> messageHistory (snd (send_notification e s b)) = recordIfNew (messageHistory s) n"
proof -
  from accepted_state [OF assms] obtain n where "isRealNotification n"
    and "res_notification (fst (send_notification e s b)) = Some n"
    and s: "snd (send_notification e s b)
               = broadcastToAll e (s\<lparr>messageHistory := recordIfNew (messageHistory s) n\<rparr>) n"
    by blast
  moreover have "messageHistory (snd (send_notification e s b)) = recordIfNew (messageHistory s) n"
    unfolding s by simp
  ultimately show ?thesis by blast
qed

text \<open>
  Claim C3.  The history never holds more than 50 texts.  A text that is not yet there is
  put at the end, and then as many texts are dropped from the front as it takes to be back
  at 50; both producers insert through this one step.  After 51 different real
  notifications into an empty history its length is 50 and the first of them is gone.
\<close>

theorem history_bounded:
  "(reachable s \<longrightarrow> length (messageHistory s) \<le> 50)
   \<and> (m \<notin> set h \<longrightarrow>
        recordIfNew h m = drop (length (h @ [m]) - 50) (h @ [m])
        \<and> length (recordIfNew h m) = min 50 (length h + 1))
   \<and> (isRealNotification m \<longrightarrow>
        messageHistory (incoming e s c m) = recordIfNew (messageHistory s) m)
   \<and> (res_success (fst (send_notification e s b)) \<longrightarrow>
        (\<exists>n. res_notification (fst (send_notification e s b)) = Some n
           \<and> messageHistory (snd (send_notification e s b)) = recordIfNew (messageHistory s) n))
   \<and> (messageHistory s0 = [] \<and> distinct ms \<and> length ms = 51
        \<and> (\<forall>x \<in> set ms. isRealNotification x) \<longrightarrow>
        messageHistory (foldl (\<lambda>s x. incoming e s c x) s0 ms) = tl ms
        \<and> hd ms \<notin> set (messageHistory (foldl (\<lambda>s x. incoming e s c x) s0 ms))
        \<and> length (messageHistory (foldl (\<lambda>s x. incoming e s c x) s0 ms)) = 50)"
proof (intro conjI impI)
  assume "reachable s"
  then show "length (messageHistory s) \<le> 50" by (rule history_length)
next
  assume "m \<notin> set h"
  then have r: "recordIfNew h m = slice_last 50 (h @ [m])" by (rule recordIfNew_absent)
  then show "recordIfNew h m = drop (length (h @ [m]) - 50) (h @ [m])"
    by (simp add: slice_last_def)
  from r show "length (recordIfNew h m) = min 50 (length h + 1)"
    by (simp add: length_slice_last)
next
  assume "isRealNotification m"
  then show "messageHistory (incoming e s c m) = recordIfNew (messageHistory s) m"
    by (simp add: incoming_history)
next
  assume "res_success (fst (send_notification e s b))"
  from accepted_history [OF this]
  show "\<exists>n. res_notification (fst (send_notification e s b)) = Some n
           \<and> messageHistory (snd (send_notification e s b)) = recordIfNew (messageHistory s) n"
    by blast
next
  assume a: "messageHistory s0 = [] \<and> distinct ms \<and> length ms = 51
        \<and> (\<forall>x \<in> set ms. isRealNotification x)"
  let ?h = "messageHistory (foldl (\<lambda>s x. incoming e s c x) s0 ms)"
  from a have "?h = foldl recordIfNew [] ms"
    by (simp add: incoming_all_history)
  also from a have "\<dots> = slice_last 50 ([] @ ms)"
    by (intro foldl_recordIfNew) simp_all
  also from a have "\<dots> = tl ms"
    by (simp add: slice_last_def drop_Suc)
  finally show h: "?h = tl ms" .
  from a obtain x xs where ms: "ms = x # xs" by (cases ms) auto
  with a show "hd ms \<notin> set ?h" unfolding h by auto
  from a show "length ?h = 50" unfolding h by simp
qed

theorem history_bounded_witness:
  "reachable initial \<and> length (messageHistory initial) \<le> 50
   \<and> ''b'' \<notin> set [''a''] \<and> recordIfNew [''a''] ''b'' = [''a'', ''b'']
   \<and> isRealNotification ''b''
   \<and> messageHistory (incoming quiet initial 1 ''b'') = [''b'']
   \<and> res_success (fst (send_notification quiet initial (submission ''a'' ''b'' ''c'')))
   \<and> messageHistory (snd (send_notification quiet initial (submission ''a'' ''b'' ''c''))) = [''a|b|c|'']
   \<and> distinct fifty_one \<and> length fifty_one = 51 \<and> list_all isRealNotification fifty_one
   \<and> messageHistory (foldl (\<lambda>s x. incoming quiet s 1 x) initial fifty_one) = tl fifty_one
   \<and> hd fifty_one \<notin> set (messageHistory (foldl (\<lambda>s x. incoming quiet s 1 x) initial fifty_one))
   \<and> length (messageHistory (foldl (\<lambda>s x. incoming quiet s 1 x) initial fifty_one)) = 50"
proof -
  let ?b = "submission ''a'' ''b'' ''c''"
  note t = history_bounded [of initial "''b''" "[''a'']" quiet 1 ?b initial fifty_one]
  have real: "isRealNotification ''b''" by (simp add: short_text_real)
  have real': "isRealNotification ''a|b|c|''" by (simp add: classify_defs)
  have ok: "res_success (fst (send_notification quiet initial ?b))"
    by (simp add: run_defs real')
  have n: "res_notification (fst (send_notification quiet initial ?b)) = Some ''a|b|c|''"
    by (simp add: run_defs real')
  have e: "messageHistory initial = []" by (simp add: initial_def)
  from t reachable.start have 1: "length (messageHistory initial) \<le> 50" by blast
  from t have 2: "recordIfNew [''a''] ''b'' = [''a'', ''b'']" by simp
  from t real have 3: "messageHistory (incoming quiet initial 1 ''b'') = [''b'']"
    by (simp add: e recordIfNew_def)
  from t ok n have 4: "messageHistory (snd (send_notification quiet initial ?b)) = [''a|b|c|'']"
    by (simp add: e recordIfNew_def)
  from t e fifty_one_distinct fifty_one_length fifty_one_real
  have 5: "messageHistory (foldl (\<lambda>s x. incoming quiet s 1 x) initial fifty_one) = tl fifty_one
        \<and> hd fifty_one \<notin> set (messageHistory (foldl (\<lambda>s x. incoming quiet s 1 x) initial fifty_one))
        \<and> length (messageHistory (foldl (\<lambda>s x. incoming quiet s 1 x) initial fifty_one)) = 50"
    by blast
  have 6: "''b'' \<notin> set [''a'']" by simp
  from reachable.start 1 2 real 3 ok 4 5 6 fifty_one_distinct fifty_one_length fifty_one_real
  show ?thesis unfolding list_all_iff by blast
qed

lemma send_notification_twice:
  "messageHistory (snd (send_notification e' (snd (send_notification e s b)) b))
     = messageHistory (snd (send_notification e s b))"
proof -
  from send_notification_shape [of b] show ?thesis
  proof
    assume "\<forall>e s. snd (send_notification e s b) = s
        \<and> \<not> res_success (fst (send_notification e s b))"
    then show ?thesis by simp
  next
    assume "\<exists>n. isRealNotification n
         \<and> (\<forall>e s. res_success (fst (send_notification e s b))
               \<and> res_notification (fst (send_notification e s b)) = Some n
               \<and> snd (send_notification e s b)
                   = broadcastToAll e (s\<lparr>messageHistory := recordIfNew (messageHistory s) n\<rparr>) n)"
    then obtain n where
      s: "\<And>e s. snd (send_notification e s b)
             = broadcastToAll e (s\<lparr>messageHistory := recordIfNew (messageHistory s) n\<rparr>) n"
      by blast
    show ?thesis by (simp add: s recordIfNew_twice)
  qed
qed

text \<open>
  Claim C4.  Inserting a text that the history already holds leaves the history as it is,
  so inserting the same text twice changes nothing the second time, through either
  producer; and the history of a reachable state has no text twice.
\<close>

theorem history_no_duplicates:
  "(m \<in> set h \<longrightarrow> recordIfNew h m = h)
   \<and> recordIfNew (recordIfNew h m) m = recordIfNew h m
   \<and> (m \<in> set (messageHistory s) \<longrightarrow>
        messageHistory (incoming e s c m) = messageHistory s)
   \<and> messageHistory (incoming e' (incoming e s c m) c' m) = messageHistory (incoming e s c m)
   \<and> messageHistory (snd (send_notification e' (snd (send_notification e s b)) b))
        = messageHistory (snd (send_notification e s b))
   \<and> (reachable s \<longrightarrow> distinct (messageHistory s))"
proof (intro conjI impI)
  assume "m \<in> set h"
  then show "recordIfNew h m = h" by (rule recordIfNew_present)
next
  show "recordIfNew (recordIfNew h m) m = recordIfNew h m" by (rule recordIfNew_twice)
next
  assume "m \<in> set (messageHistory s)"
  then show "messageHistory (incoming e s c m) = messageHistory s"
    by (simp add: incoming_history recordIfNew_present)
next
  show "messageHistory (incoming e' (incoming e s c m) c' m) = messageHistory (incoming e s c m)"
    by (simp add: incoming_history recordIfNew_twice)
next
  show "messageHistory (snd (send_notification e' (snd (send_notification e s b)) b))
        = messageHistory (snd (send_notification e s b))"
    by (rule send_notification_twice)
next
  assume "reachable s"
  then show "distinct (messageHistory s)" by (rule history_distinct)
qed

theorem history_no_duplicates_witness:
  "''b'' \<in> set [''a'', ''b'', ''c''] \<and> recordIfNew [''a'', ''b'', ''c''] ''b'' = [''a'', ''b'', ''c'']
   \<and> reachable (incoming quiet initial 1 ''b'')
   \<and> messageHistory (incoming quiet initial 1 ''b'') = [''b'']
   \<and> messageHistory (incoming quiet (incoming quiet initial 1 ''b'') 2 ''b'') = [''b'']
   \<and> distinct (messageHistory (incoming quiet initial 1 ''b''))"
proof -
  let ?s = "incoming quiet initial 1 ''b''"
  note t = history_no_duplicates [where m = "''b''" and h = "[''a'', ''b'', ''c'']"
      and s = ?s and e = quiet and c = 2]
  have real: "isRealNotification ''b''" by (simp add: short_text_real)
  have r: "reachable ?s" by (rule reachable.on_message [OF reachable.start])
  have h: "messageHistory ?s = [''b'']"
    by (simp add: incoming_history real recordIfNew_def initial_def)
  have 1: "''b'' \<in> set [''a'', ''b'', ''c'']" by simp
  from t 1 have 2: "recordIfNew [''a'', ''b'', ''c''] ''b'' = [''a'', ''b'', ''c'']" by blast
  from h have "''b'' \<in> set (messageHistory ?s)" by simp
  with t have "messageHistory (incoming quiet ?s 2 ''b'') = messageHistory ?s" by blast
  with h have 3: "messageHistory (incoming quiet ?s 2 ''b'') = [''b'']" by simp
  from t r have 4: "distinct (messageHistory ?s)" by blast
  from 1 2 r h 3 4 show ?thesis by blast
qed

section \<open>A socket joins\<close>




section \<open>Who a broadcast reaches\<close>

text \<open>
  Claim C6.  A broadcast for a sender calls \<^verbatim>\<open>send\<close> on exactly the registered
  sockets that are open and are not the sender, once each, in registry order; a broadcast
  to all calls it on exactly the registered sockets that are open.  A real notification
  that arrives on socket \<open>a\<close> is broadcast the first way, an accepted submission over
  HTTP the second way.
\<close>

theorem broadcast_recipients:
  "attempts (wire (broadcastToOthers e s a m))
     = attempts (wire s)
       @ map (\<lambda>c. (c, m)) (filter (\<lambda>c. c \<noteq> a \<and> readyState e c = OPEN) (clients s))
   \<and> attempts (wire (broadcastToAll e s m))
     = attempts (wire s) @ map (\<lambda>c. (c, m)) (filter (\<lambda>c. readyState e c = OPEN) (clients s))
   \<and> (isRealNotification m \<longrightarrow>
        attempts (wire (incoming e s a m))
          = attempts (wire s)
            @ map (\<lambda>c. (c, m)) (filter (\<lambda>c. c \<noteq> a \<and> readyState e c = OPEN) (clients s)))
   \<and> (res_success (fst (send_notification e s b)) \<longrightarrow>
        (\<exists>n. res_notification (fst (send_notification e s b)) = Some n
           \<and> attempts (wire (snd (send_notification e s b)))
             = attempts (wire s)
               @ map (\<lambda>c. (c, n)) (filter (\<lambda>c. readyState e c = OPEN) (clients s))))"
proof (intro conjI impI)
  show "attempts (wire (broadcastToOthers e s a m))
     = attempts (wire s)
       @ map (\<lambda>c. (c, m)) (filter (\<lambda>c. c \<noteq> a \<and> readyState e c = OPEN) (clients s))"
    by (simp add: broadcastToOthers_wire attempts_pass)
  show "attempts (wire (broadcastToAll e s m))
     = attempts (wire s) @ map (\<lambda>c. (c, m)) (filter (\<lambda>c. readyState e c = OPEN) (clients s))"
    by (simp add: broadcastToAll_wire attempts_pass)
next
  assume real: "isRealNotification m"
  then have "\<not> str_includes m ''request_initial_data''"
    using request_initial_data_not_real by blast
  with real show "attempts (wire (incoming e s a m))
          = attempts (wire s)
            @ map (\<lambda>c. (c, m)) (filter (\<lambda>c. c \<noteq> a \<and> readyState e c = OPEN) (clients s))"
    by (simp add: incoming_def broadcastToOthers_wire attempts_pass)
next
  assume "res_success (fst (send_notification e s b))"
  from accepted_state [OF this] obtain n
    where n: "res_notification (fst (send_notification e s b)) = Some n"
      and s: "snd (send_notification e s b)
               = broadcastToAll e (s\<lparr>messageHistory := recordIfNew (messageHistory s) n\<rparr>) n"
    by blast
  have "attempts (wire (snd (send_notification e s b)))
      = attempts (wire s) @ map (\<lambda>c. (c, n)) (filter (\<lambda>c. readyState e c = OPEN) (clients s))"
    unfolding s by (simp add: broadcastToAll_wire attempts_pass)
  with n show "\<exists>n. res_notification (fst (send_notification e s b)) = Some n
           \<and> attempts (wire (snd (send_notification e s b)))
             = attempts (wire s)
               @ map (\<lambda>c. (c, n)) (filter (\<lambda>c. readyState e c = OPEN) (clients s))"
    by blast
qed

lemma rough_simps [simp]:
  "readyState rough c = (if c = 3 then CLOSED else OPEN)" "sendThrows rough c m = (c = 2)"
  "pingThrows rough c = False"
  by (simp_all add: rough_def)

theorem broadcast_recipients_witness:
  "isRealNotification ''hi''
   \<and> attempts (wire (incoming rough
        \<lparr>clients = [1, 2, 3, 4], messageHistory = [], wire = []\<rparr> 1 ''hi''))
      = [(2, ''hi''), (4, ''hi'')]
   \<and> res_success (fst (send_notification rough
        \<lparr>clients = [1, 2, 3, 4], messageHistory = [], wire = []\<rparr> (submission ''a'' ''b'' ''c'')))
   \<and> attempts (wire (snd (send_notification rough
        \<lparr>clients = [1, 2, 3, 4], messageHistory = [], wire = []\<rparr> (submission ''a'' ''b'' ''c''))))
      = [(1, ''a|b|c|''), (2, ''a|b|c|''), (4, ''a|b|c|'')]"
proof -
  let ?s = "\<lparr>clients = [1, 2, 3, 4], messageHistory = [], wire = []\<rparr>"
  let ?b = "submission ''a'' ''b'' ''c''"
  note t = broadcast_recipients [of rough ?s 1 "''hi''" ?b]
  have real: "isRealNotification ''hi''" by (simp add: short_text_real)
  have real': "isRealNotification ''a|b|c|''" by (simp add: classify_defs)
  have ok: "res_success (fst (send_notification rough ?s ?b))"
    by (simp add: run_defs real')
  have n: "res_notification (fst (send_notification rough ?s ?b)) = Some ''a|b|c|''"
    by (simp add: run_defs real')
  from t real have 1: "attempts (wire (incoming rough ?s 1 ''hi'')) = [(2, ''hi''), (4, ''hi'')]"
    by (simp add: attempts_def)
  from t ok n have 2: "attempts (wire (snd (send_notification rough ?s ?b)))
      = [(1, ''a|b|c|''), (2, ''a|b|c|''), (4, ''a|b|c|'')]"
    by (simp add: attempts_def)
  from real 1 ok 2 show ?thesis by blast
qed

text \<open>
  Claim C7.  In one broadcast, the sockets removed from the registry are exactly those on
  which \<^verbatim>\<open>send\<close> was called and threw; every other open socket the broadcast
  addresses gets the text, whatever happened to the sockets before or after it.  A
  broadcast is a function from states to states: nothing is thrown to its caller.  The
  history is not touched.
\<close>

theorem send_failure_isolated:
  "clients (broadcastToAll e s m)
     = filter (\<lambda>c. \<not> (readyState e c = OPEN \<and> sendThrows e c m)) (clients s)
   \<and> deliveries (wire (broadcastToAll e s m))
     = deliveries (wire s)
       @ map (\<lambda>c. (c, m)) (filter (\<lambda>c. readyState e c = OPEN \<and> \<not> sendThrows e c m) (clients s))
   \<and> messageHistory (broadcastToAll e s m) = messageHistory s
   \<and> clients (broadcastToOthers e s a m)
     = filter (\<lambda>c. \<not> (c \<noteq> a \<and> readyState e c = OPEN \<and> sendThrows e c m)) (clients s)
   \<and> deliveries (wire (broadcastToOthers e s a m))
     = deliveries (wire s)
       @ map (\<lambda>c. (c, m))
           (filter (\<lambda>c. c \<noteq> a \<and> readyState e c = OPEN \<and> \<not> sendThrows e c m) (clients s))
   \<and> messageHistory (broadcastToOthers e s a m) = messageHistory s"
proof (intro conjI)
  show "clients (broadcastToAll e s m)
     = filter (\<lambda>c. \<not> (readyState e c = OPEN \<and> sendThrows e c m)) (clients s)"
    by (rule broadcastToAll_clients)
  show "deliveries (wire (broadcastToAll e s m))
     = deliveries (wire s)
       @ map (\<lambda>c. (c, m)) (filter (\<lambda>c. readyState e c = OPEN \<and> \<not> sendThrows e c m) (clients s))"
    by (simp add: broadcastToAll_wire deliveries_pass conj_commute)
  show "clients (broadcastToOthers e s a m)
     = filter (\<lambda>c. \<not> (c \<noteq> a \<and> readyState e c = OPEN \<and> sendThrows e c m)) (clients s)"
    by (simp add: broadcastToOthers_clients)
  show "deliveries (wire (broadcastToOthers e s a m))
     = deliveries (wire s)
       @ map (\<lambda>c. (c, m))
           (filter (\<lambda>c. c \<noteq> a \<and> readyState e c = OPEN \<and> \<not> sendThrows e c m) (clients s))"
    by (simp add: broadcastToOthers_wire deliveries_pass conj_commute conj_left_commute)
qed simp_all

lemma send_failure_example:
  "broadcastToAll rough \<lparr>clients = [1, 2, 3, 4], messageHistory = [], wire = []\<rparr> ''hi''
     = \<lparr>clients = [1, 3, 4], messageHistory = [],
        wire = [Sent 1 ''hi'', SendFailed 2 ''hi'', Sent 4 ''hi'']\<rparr>"
  by (simp add: run_defs)

section \<open>Submissions over HTTP\<close>

lemma to_text_extraData:
  "to_text (case p of None \<Rightarrow> Some (JString []) | Some v \<Rightarrow> Some v)
     = (case p of None \<Rightarrow> Some [] | Some v \<Rightarrow> js_toString v)"
  by (simp add: to_text_def split: option.splits)

lemma falsy_iff:
  "falsy v \<longleftrightarrow>
     v = None \<or> v = Some JNull \<or> v = Some (JBool False) \<or> (\<exists>p. v = Some (JNumber True p))
     \<or> v = Some (JString [])"
proof (cases v)
  case None
  then show ?thesis by simp
next
  case (Some j)
  then show ?thesis by (cases j) auto
qed

lemma send_notification_printed:
  assumes "j \<noteq> JNull"
    and "\<not> falsy (get_prop j ''type'')" and "\<not> falsy (get_prop j ''title'')"
    and "\<not> falsy (get_prop j ''message'')"
    and "to_text (get_prop j ''type'') = Some t" and "to_text (get_prop j ''title'') = Some ti"
    and "to_text (get_prop j ''message'') = Some me"
    and "(case get_prop j ''extraData'' of None \<Rightarrow> Some [] | Some v \<Rightarrow> js_toString v) = Some ex"
    and "n = t @ ''|'' @ ti @ ''|'' @ me @ ''|'' @ ex"
  shows "send_notification e s (Some j) =
     (if isRealNotification n then
        (\<lparr>res_status = 200, res_success = True,
          res_text = Message ''Real notification sent successfully'',
          res_clients = Some (length (clients (broadcastToAll e
             (s\<lparr>messageHistory := recordIfNew (messageHistory s) n\<rparr>) n))),
          res_notification = Some n\<rparr>,
         broadcastToAll e (s\<lparr>messageHistory := recordIfNew (messageHistory s) n\<rparr>) n)
      else
        (\<lparr>res_status = 200, res_success = False,
          res_text = Message ''System message filtered out - not a real notification'',
          res_clients = None, res_notification = Some n\<rparr>, s))"
  using assms
  by (simp add: send_notification_def send_notification_try_def Let_def to_text_extraData)

text \<open>
  Claim C8, as the code has it.  The handler takes whatever JSON the request carried.
  If the body is undefined or null the destructuring throws and the answer is 500.
  Otherwise, if \<open>type\<close>, \<open>title\<close> or \<open>message\<close> is falsy (absent, null, false, zero or
  the empty string) the answer is 400 with success false; if none is falsy and one of
  the four fields cannot be printed (an object with a member \<open>toString\<close>, by itself or
  inside an array) the template literal throws and the answer is 500.  In these three
  cases the state stays as it was.  In the remaining case the text is
  \<open>type|title|message|extraData\<close>, each field printed as a template literal prints it and
  nothing for an absent \<open>extraData\<close>; the answer has status 200 and carries the text, and
  its success flag says whether the text is real.  A real text is recorded through the
  deduplicating insertion and sent to every open registered socket, and the answer
  reports the size of the registry after the broadcast; a text that is not real leaves
  the state as it was.  For fields that are strings, falsy means empty and printing
  gives the string itself.
\<close>

theorem send_notification_outcomes:
  "(b0 = None \<or> b0 = Some JNull \<longrightarrow>
      res_status (fst (send_notification e s b0)) = 500
      \<and> res_success (fst (send_notification e s b0)) = False
      \<and> snd (send_notification e s b0) = s)
   \<and> (j1 \<noteq> JNull
        \<and> (falsy (get_prop j1 ''type'') \<or> falsy (get_prop j1 ''title'')
             \<or> falsy (get_prop j1 ''message'')) \<longrightarrow>
      res_status (fst (send_notification e s (Some j1))) = 400
      \<and> res_success (fst (send_notification e s (Some j1))) = False
      \<and> snd (send_notification e s (Some j1)) = s)
   \<and> (j2 \<noteq> JNull
        \<and> \<not> falsy (get_prop j2 ''type'') \<and> \<not> falsy (get_prop j2 ''title'')
        \<and> \<not> falsy (get_prop j2 ''message'')
        \<and> (to_text (get_prop j2 ''type'') = None \<or> to_text (get_prop j2 ''title'') = None
             \<or> to_text (get_prop j2 ''message'') = None
             \<or> (\<exists>v. get_prop j2 ''extraData'' = Some v \<and> js_toString v = None)) \<longrightarrow>
      res_status (fst (send_notification e s (Some j2))) = 500
      \<and> res_success (fst (send_notification e s (Some j2))) = False
      \<and> snd (send_notification e s (Some j2)) = s)
   \<and> (j3 \<noteq> JNull
        \<and> \<not> falsy (get_prop j3 ''type'') \<and> \<not> falsy (get_prop j3 ''title'')
        \<and> \<not> falsy (get_prop j3 ''message'')
        \<and> to_text (get_prop j3 ''type'') = Some t \<and> to_text (get_prop j3 ''title'') = Some ti
        \<and> to_text (get_prop j3 ''message'') = Some me
        \<and> (case get_prop j3 ''extraData'' of None \<Rightarrow> Some [] | Some v \<Rightarrow> js_toString v) = Some ex
        \<and> n = t @ ''|'' @ ti @ ''|'' @ me @ ''|'' @ ex \<longrightarrow>
        res_status (fst (send_notification e s (Some j3))) = 200
        \<and> res_notification (fst (send_notification e s (Some j3))) = Some n
        \<and> res_success (fst (send_notification e s (Some j3))) = isRealNotification n
        \<and> (if isRealNotification n then
              snd (send_notification e s (Some j3))
                = broadcastToAll e (s\<lparr>messageHistory := recordIfNew (messageHistory s) n\<rparr>) n
              \<and> messageHistory (snd (send_notification e s (Some j3)))
                  = recordIfNew (messageHistory s) n
              \<and> attempts (wire (snd (send_notification e s (Some j3))))
                  = attempts (wire s)
                    @ map (\<lambda>c. (c, n)) (filter (\<lambda>c. readyState e c = OPEN) (clients s))
              \<and> res_clients (fst (send_notification e s (Some j3)))
                  = Some (length (clients (snd (send_notification e s (Some j3)))))
            else snd (send_notification e s (Some j3)) = s))
   \<and> (falsy v \<longleftrightarrow>
        v = None \<or> v = Some JNull \<or> v = Some (JBool False) \<or> (\<exists>p. v = Some (JNumber True p))
        \<or> v = Some (JString []))
   \<and> to_text (Some (JString x)) = Some x"
proof (intro conjI impI)
  assume "b0 = None \<or> b0 = Some JNull"
  then have r: "send_notification e s b0 =
      (\<lparr>res_status = 500, res_success = False, res_text = ErrorOf TypeError,
        res_clients = None, res_notification = None\<rparr>, s)"
    by (auto simp: send_notification_def send_notification_try_def)
  show "res_status (fst (send_notification e s b0)) = 500" unfolding r by simp
  show "res_success (fst (send_notification e s b0)) = False" unfolding r by simp
  show "snd (send_notification e s b0) = s" unfolding r by simp
next
  assume "j1 \<noteq> JNull
        \<and> (falsy (get_prop j1 ''type'') \<or> falsy (get_prop j1 ''title'')
             \<or> falsy (get_prop j1 ''message''))"
  then have r: "send_notification e s (Some j1) =
      (\<lparr>res_status = 400, res_success = False,
        res_text = Error ''Missing required fields: type, title, message'',
        res_clients = None, res_notification = None\<rparr>, s)"
    by (simp add: send_notification_def send_notification_try_def Let_def)
  show "res_status (fst (send_notification e s (Some j1))) = 400" unfolding r by simp
  show "res_success (fst (send_notification e s (Some j1))) = False" unfolding r by simp
  show "snd (send_notification e s (Some j1)) = s" unfolding r by simp
next
  assume a: "j2 \<noteq> JNull
        \<and> \<not> falsy (get_prop j2 ''type'') \<and> \<not> falsy (get_prop j2 ''title'')
        \<and> \<not> falsy (get_prop j2 ''message'')
        \<and> (to_text (get_prop j2 ''type'') = None \<or> to_text (get_prop j2 ''title'') = None
             \<or> to_text (get_prop j2 ''message'') = None
             \<or> (\<exists>v. get_prop j2 ''extraData'' = Some v \<and> js_toString v = None))"
  then have "to_text (get_prop j2 ''type'') = None \<or> to_text (get_prop j2 ''title'') = None
      \<or> to_text (get_prop j2 ''message'') = None
      \<or> to_text (case get_prop j2 ''extraData'' of
                    None \<Rightarrow> Some (JString []) | Some v \<Rightarrow> Some v) = None"
    unfolding to_text_extraData by auto
  with a have r: "send_notification e s (Some j2) =
      (\<lparr>res_status = 500, res_success = False, res_text = ErrorOf TypeError,
        res_clients = None, res_notification = None\<rparr>, s)"
    by (auto simp: send_notification_def send_notification_try_def Let_def
        split: option.splits)
  show "res_status (fst (send_notification e s (Some j2))) = 500" unfolding r by simp
  show "res_success (fst (send_notification e s (Some j2))) = False" unfolding r by simp
  show "snd (send_notification e s (Some j2)) = s" unfolding r by simp
next
  assume a: "j3 \<noteq> JNull
        \<and> \<not> falsy (get_prop j3 ''type'') \<and> \<not> falsy (get_prop j3 ''title'')
        \<and> \<not> falsy (get_prop j3 ''message'')
        \<and> to_text (get_prop j3 ''type'') = Some t \<and> to_text (get_prop j3 ''title'') = Some ti
        \<and> to_text (get_prop j3 ''message'') = Some me
        \<and> (case get_prop j3 ''extraData'' of None \<Rightarrow> Some [] | Some v \<Rightarrow> js_toString v) = Some ex
        \<and> n = t @ ''|'' @ ti @ ''|'' @ me @ ''|'' @ ex"
  then have r: "send_notification e s (Some j3) =
     (if isRealNotification n then
        (\<lparr>res_status = 200, res_success = True,
          res_text = Message ''Real notification sent successfully'',
          res_clients = Some (length (clients (broadcastToAll e
             (s\<lparr>messageHistory := recordIfNew (messageHistory s) n\<rparr>) n))),
          res_notification = Some n\<rparr>,
         broadcastToAll e (s\<lparr>messageHistory := recordIfNew (messageHistory s) n\<rparr>) n)
      else
        (\<lparr>res_status = 200, res_success = False,
          res_text = Message ''System message filtered out - not a real notification'',
          res_clients = None, res_notification = Some n\<rparr>, s))"
    by (intro send_notification_printed) simp_all
  show "res_status (fst (send_notification e s (Some j3))) = 200" unfolding r by simp
  show "res_notification (fst (send_notification e s (Some j3))) = Some n" unfolding r by simp
  show "res_success (fst (send_notification e s (Some j3))) = isRealNotification n"
    unfolding r by simp
  show "if isRealNotification n then
              snd (send_notification e s (Some j3))
                = broadcastToAll e (s\<lparr>messageHistory := recordIfNew (messageHistory s) n\<rparr>) n
              \<and> messageHistory (snd (send_notification e s (Some j3)))
                  = recordIfNew (messageHistory s) n
              \<and> attempts (wire (snd (send_notification e s (Some j3))))
                  = attempts (wire s)
                    @ map (\<lambda>c. (c, n)) (filter (\<lambda>c. readyState e c = OPEN) (clients s))
              \<and> res_clients (fst (send_notification e s (Some j3)))
                  = Some (length (clients (snd (send_notification e s (Some j3)))))
            else snd (send_notification e s (Some j3)) = s"
    unfolding r by (simp add: broadcastToAll_wire attempts_pass)
next
  show "falsy v \<longleftrightarrow>
        v = None \<or> v = Some JNull \<or> v = Some (JBool False) \<or> (\<exists>p. v = Some (JNumber True p))
        \<or> v = Some (JString [])"
    by (rule falsy_iff)
  show "to_text (Some (JString x)) = Some x" by (simp add: to_text_def)
qed

theorem send_notification_outcomes_witness:
  "res_status (fst (send_notification rough
        \<lparr>clients = [1, 2, 3, 4], messageHistory = [], wire = []\<rparr> None)) = 500
   \<and> res_status (fst (send_notification rough
        \<lparr>clients = [1, 2, 3, 4], messageHistory = [], wire = []\<rparr>
        (submission ''new_wallpaper'' [] ''Hello''))) = 400
   \<and> snd (send_notification rough \<lparr>clients = [1, 2, 3, 4], messageHistory = [], wire = []\<rparr>
        (submission ''new_wallpaper'' [] ''Hello''))
     = \<lparr>clients = [1, 2, 3, 4], messageHistory = [], wire = []\<rparr>
   \<and> res_status (fst (send_notification rough
        \<lparr>clients = [1, 2, 3, 4], messageHistory = [], wire = []\<rparr>
        (Some (JObject [(''type'', JArray [JString ''a'', JObject [(''toString'', JNull)]]),
                        (''title'', JString ''Test''), (''message'', JString ''Hello'')])))) = 500
   \<and> \<not> isRealNotification ''new_wallpaper|Test|Connection successful!|''
   \<and> res_success (fst (send_notification rough
        \<lparr>clients = [1, 2, 3, 4], messageHistory = [], wire = []\<rparr>
        (submission ''new_wallpaper'' ''Test'' ''Connection successful!''))) = False
   \<and> snd (send_notification rough \<lparr>clients = [1, 2, 3, 4], messageHistory = [], wire = []\<rparr>
        (submission ''new_wallpaper'' ''Test'' ''Connection successful!''))
     = \<lparr>clients = [1, 2, 3, 4], messageHistory = [], wire = []\<rparr>
   \<and> isRealNotification ''new_wallpaper|Art1|New wallpaper available|''
   \<and> res_success (fst (send_notification rough
        \<lparr>clients = [1, 2, 3, 4], messageHistory = [], wire = []\<rparr>
        (submission ''new_wallpaper'' ''Art1'' ''New wallpaper available''))) = True
   \<and> res_clients (fst (send_notification rough
        \<lparr>clients = [1, 2, 3, 4], messageHistory = [], wire = []\<rparr>
        (submission ''new_wallpaper'' ''Art1'' ''New wallpaper available''))) = Some 3
   \<and> snd (send_notification rough \<lparr>clients = [1, 2, 3, 4], messageHistory = [], wire = []\<rparr>
        (submission ''new_wallpaper'' ''Art1'' ''New wallpaper available''))
     = \<lparr>clients = [1, 3, 4],
        messageHistory = [''new_wallpaper|Art1|New wallpaper available|''],
        wire = [Sent 1 ''new_wallpaper|Art1|New wallpaper available|'',
                SendFailed 2 ''new_wallpaper|Art1|New wallpaper available|'',
                Sent 4 ''new_wallpaper|Art1|New wallpaper available|'']\<rparr>"
proof -
  let ?s = "\<lparr>clients = [1, 2, 3, 4], messageHistory = [], wire = []\<rparr>"
  let ?j1 = "JObject [(''type'', JString ''new_wallpaper''), (''title'', JString []),
      (''message'', JString ''Hello'')]"
  let ?j2 = "JObject [(''type'', JArray [JString ''a'', JObject [(''toString'', JNull)]]),
      (''title'', JString ''Test''), (''message'', JString ''Hello'')]"
  let ?j3 = "JObject [(''type'', JString ''new_wallpaper''), (''title'', JString ''Test''),
      (''message'', JString ''Connection successful!'')]"
  let ?j4 = "JObject [(''type'', JString ''new_wallpaper''), (''title'', JString ''Art1''),
      (''message'', JString ''New wallpaper available'')]"
  let ?n1 = "''new_wallpaper|Test|Connection successful!|''"
  let ?n2 = "''new_wallpaper|Art1|New wallpaper available|''"
  have f1: "\<not> isRealNotification ?n1" by (simp add: classify_defs)
  have f2: "isRealNotification ?n2" by (simp add: classify_defs)
  from send_notification_outcomes [where ?b0.0 = None and e = rough and s = ?s
      and ?j1.0 = ?j1 and ?j2.0 = ?j2 and ?j3.0 = ?j3
      and t = "''new_wallpaper''" and ti = "''Test''" and me = "''Connection successful!''"
      and ex = "[]" and n = ?n1] f1
  have 1: "res_status (fst (send_notification rough ?s None)) = 500
      \<and> res_status (fst (send_notification rough ?s (Some ?j1))) = 400
      \<and> snd (send_notification rough ?s (Some ?j1)) = ?s
      \<and> res_status (fst (send_notification rough ?s (Some ?j2))) = 500
      \<and> res_success (fst (send_notification rough ?s (Some ?j3))) = False
      \<and> snd (send_notification rough ?s (Some ?j3)) = ?s"
    by (simp add: get_prop_def to_text_def)
  from send_notification_outcomes [where ?b0.0 = None and e = rough and s = ?s
      and ?j1.0 = ?j1 and ?j2.0 = ?j2 and ?j3.0 = ?j4
      and t = "''new_wallpaper''" and ti = "''Art1''" and me = "''New wallpaper available''"
      and ex = "[]" and n = ?n2] f2
  have 2: "res_success (fst (send_notification rough ?s (Some ?j4))) = True
      \<and> snd (send_notification rough ?s (Some ?j4))
          = broadcastToAll rough (?s\<lparr>messageHistory := recordIfNew (messageHistory ?s) ?n2\<rparr>) ?n2
      \<and> res_clients (fst (send_notification rough ?s (Some ?j4)))
                  = Some (length (clients (snd (send_notification rough ?s (Some ?j4)))))"
    by (simp add: get_prop_def to_text_def)
  have 3: "broadcastToAll rough (?s\<lparr>messageHistory := recordIfNew (messageHistory ?s) ?n2\<rparr>) ?n2
      = \<lparr>clients = [1, 3, 4], messageHistory = [?n2],
        wire = [Sent 1 ?n2, SendFailed 2 ?n2, Sent 4 ?n2]\<rparr>"
    by (simp add: run_defs)
  from 1 2 3 f1 f2 show ?thesis by (simp add: submission_def)
qed

text \<open>
  Two submissions in which no required field is absent or empty, and which are neither
  accepted nor filtered: a \<open>type\<close> that cannot be printed is answered with 500 and no
  text, a \<open>type\<close> that is the number zero with 400.
\<close>

theorem send_notification_counterexample:
  "get_prop (JObject [(''type'', JObject [(''toString'', JNull)]),
                      (''title'', JString ''Test''), (''message'', JString ''Hello'')]) ''type''
     = Some (JObject [(''toString'', JNull)])
   \<and> res_status (fst (send_notification quiet initial
        (Some (JObject [(''type'', JObject [(''toString'', JNull)]),
                        (''title'', JString ''Test''), (''message'', JString ''Hello'')])))) = 500
   \<and> res_notification (fst (send_notification quiet initial
        (Some (JObject [(''type'', JObject [(''toString'', JNull)]),
                        (''title'', JString ''Test''), (''message'', JString ''Hello'')])))) = None
   \<and> get_prop (JObject [(''type'', JNumber True ''0''),
                        (''title'', JString ''Test''), (''message'', JString ''Hello'')]) ''type''
     = Some (JNumber True ''0'')
   \<and> res_status (fst (send_notification quiet initial
        (Some (JObject [(''type'', JNumber True ''0''),
                        (''title'', JString ''Test''), (''message'', JString ''Hello'')])))) = 400"
  by (simp add: send_notification_def send_notification_try_def get_prop_def to_text_def)

section \<open>Inbound messages\<close>

text \<open>
  Claim C9.  An inbound message whose text contains \<open>request_initial_data\<close> leaves the
  whole state as it was: the history, the registry and the trace of sends.  The handler
  tests for this before it asks the classifier, which would have refused the text too.
\<close>

theorem request_initial_data_silent:
  "str_includes msgStr ''request_initial_data'' \<Longrightarrow>
     incoming e s c msgStr = s \<and> \<not> isRealNotification msgStr"
  by (simp add: incoming_def request_initial_data_not_real)

theorem request_initial_data_silent_witness:
  "str_includes ''a|request_initial_data|b'' ''request_initial_data''
   \<and> incoming rough \<lparr>clients = [1, 2, 3, 4], messageHistory = [''x''], wire = []\<rparr> 1
        ''a|request_initial_data|b''
      = \<lparr>clients = [1, 2, 3, 4], messageHistory = [''x''], wire = []\<rparr>"
proof -
  have i: "str_includes ''a|request_initial_data|b'' ''request_initial_data''"
    by (simp add: startsWith_def)
  from request_initial_data_silent [OF i] i show ?thesis by blast
qed

lemma quiet_incoming:
  assumes "isRealNotification m"
  shows "incoming quiet s c m
     = s\<lparr>messageHistory := recordIfNew (messageHistory s) m,
         wire := wire s @ map (\<lambda>x. Sent x m) (filter (\<lambda>x. x \<noteq> c) (clients s))\<rparr>"
proof -
  let ?s1 = "s\<lparr>messageHistory := recordIfNew (messageHistory s) m\<rparr>"
  have i: "incoming quiet s c m = broadcastToOthers quiet ?s1 c m"
    using assms request_initial_data_not_real [of m] by (auto simp: incoming_def)
  have "clients (broadcastToOthers quiet ?s1 c m) = clients s"
    by (simp add: broadcastToOthers_clients)
  moreover have "wire (broadcastToOthers quiet ?s1 c m)
      = wire s @ map (\<lambda>x. Sent x m) (filter (\<lambda>x. x \<noteq> c) (clients s))"
    by (simp add: broadcastToOthers_wire)
  moreover have "messageHistory (broadcastToOthers quiet ?s1 c m)
      = recordIfNew (messageHistory s) m"
    by simp
  ultimately show ?thesis unfolding i by (intro server.equality) simp_all
qed

lemma quiet_incoming_all_clients:
  "\<forall>m \<in> set ms. isRealNotification m \<Longrightarrow>
     clients (foldl (\<lambda>s x. incoming quiet s c x) s ms) = clients s"
  by (induction ms arbitrary: s) (simp_all add: quiet_incoming)

lemma reachable_incoming_all:
  "reachable s \<Longrightarrow> reachable (foldl (\<lambda>s x. incoming e s c x) s ms)"
  by (induction ms arbitrary: s) (simp_all add: reachable.on_message)

text \<open>
  Claim C10.  The history is compared with what it holds now, not with everything it ever
  held.  There is a run, from the start of the server, in which a real notification is
  recorded and sent on, then pushed out by fifty newer ones, and then, arriving again, is
  put at the end of the history a second time and sent on a second time.
\<close>

theorem evicted_text_recorded_again:
  "\<exists>m ms. let s0 = outcome (connection quiet (outcome (connection quiet initial 1)) 2);
               s1 = incoming quiet s0 1 m;
               s51 = foldl (\<lambda>s x. incoming quiet s 1 x) s1 ms;
               s52 = incoming quiet s51 1 m
           in reachable s52
              \<and> isRealNotification m
              \<and> messageHistory s1 = [m] \<and> wire s1 = [Sent 2 m]
              \<and> length (messageHistory s51) = 50 \<and> m \<notin> set (messageHistory s51)
              \<and> messageHistory s52 = tl (messageHistory s51) @ [m]
              \<and> wire s52 = wire s51 @ [Sent 2 m]"
proof -
  define m where "m = hd fifty_one"
  define ms where "ms = tl fifty_one"
  define s0 where "s0 = outcome (connection quiet (outcome (connection quiet initial 1)) 2)"
  define s1 where "s1 = incoming quiet s0 1 m"
  define s51 where "s51 = foldl (\<lambda>s x. incoming quiet s 1 x) s1 ms"
  define s52 where "s52 = incoming quiet s51 1 m"
  have ne: "fifty_one \<noteq> []" using fifty_one_length by auto
  then have f: "fifty_one = m # ms" by (simp add: m_def ms_def)
  have l: "length ms = 50" using fifty_one_length by (simp add: ms_def)
  from fifty_one_distinct have d: "m \<notin> set ms" "distinct ms" unfolding f by simp_all
  from fifty_one_real have real: "isRealNotification m"
    and reals: "\<forall>x \<in> set ms. isRealNotification x" unfolding f by simp_all
  have s0: "s0 = \<lparr>clients = [1, 2], messageHistory = [], wire = []\<rparr>"
    by (simp add: s0_def run_defs)
  have s1: "s1 = \<lparr>clients = [1, 2], messageHistory = [m], wire = [Sent 2 m]\<rparr>"
    by (simp add: s1_def s0 quiet_incoming real recordIfNew_def)
  have "reachable s0"
    unfolding s0_def by (intro reachable.on_connection reachable.start)
  then have "reachable s1" unfolding s1_def by (rule reachable.on_message)
  then have "reachable s51" unfolding s51_def by (rule reachable_incoming_all)
  then have r: "reachable s52" unfolding s52_def by (rule reachable.on_message)
  have "messageHistory s51 = foldl recordIfNew (messageHistory s1) ms"
    unfolding s51_def using reals by (rule incoming_all_history)
  also have "\<dots> = slice_last 50 ([m] @ ms)"
    unfolding s1 using d by (simp add: foldl_recordIfNew)
  also have "\<dots> = ms"
    using l by (simp add: slice_last_def)
  finally have h51: "messageHistory s51 = ms" .
  have c51: "clients s51 = [1, 2]"
    unfolding s51_def using quiet_incoming_all_clients [OF reals, of 1 s1] by (simp add: s1)
  have "recordIfNew ms m = slice_last 50 (ms @ [m])"
    using d by (simp add: recordIfNew_absent)
  also have "\<dots> = tl ms @ [m]"
    using l by (cases ms) (simp_all add: slice_last_def)
  finally have rec: "recordIfNew ms m = tl ms @ [m]" .
  have s52: "s52 = s51\<lparr>messageHistory := tl ms @ [m], wire := wire s51 @ [Sent 2 m]\<rparr>"
    unfolding s52_def by (simp add: quiet_incoming real h51 c51 rec)
  have 1: "messageHistory s1 = [m]" "wire s1 = [Sent 2 m]" by (simp_all add: s1)
  have 2: "length (messageHistory s51) = 50" "m \<notin> set (messageHistory s51)"
    using l d by (simp_all add: h51)
  have 3: "messageHistory s52 = tl (messageHistory s51) @ [m]" "wire s52 = wire s51 @ [Sent 2 m]"
    by (simp_all add: s52 h51)
  from r real 1 2 3
  have "reachable s52 \<and> isRealNotification m
      \<and> messageHistory s1 = [m] \<and> wire s1 = [Sent 2 m]
      \<and> length (messageHistory s51) = 50 \<and> m \<notin> set (messageHistory s51)
      \<and> messageHistory s52 = tl (messageHistory s51) @ [m]
      \<and> wire s52 = wire s51 @ [Sent 2 m]"
    by (intro conjI)
  then have "let s0 = outcome (connection quiet (outcome (connection quiet initial 1)) 2);
               s1 = incoming quiet s0 1 m;
               s51 = foldl (\<lambda>s x. incoming quiet s 1 x) s1 ms;
               s52 = incoming quiet s51 1 m
           in reachable s52
              \<and> isRealNotification m
              \<and> messageHistory s1 = [m] \<and> wire s1 = [Sent 2 m]
              \<and> length (messageHistory s51) = 50 \<and> m \<notin> set (messageHistory s51)
              \<and> messageHistory s52 = tl (messageHistory s51) @ [m]
              \<and> wire s52 = wire s51 @ [Sent 2 m]"
    unfolding Let_def s52_def s51_def s1_def s0_def .
  then show ?thesis by (intro exI)
qed

end
